theory Spec2Isabelle
  imports Main "HOL-Library.AList"
begin

section \<open>JavaScript values used by the Shaka provider\<close>

text \<open>
  Numbers that the adapter reads from Shaka (track ids, heights, widths, bandwidths) are
  modelled as integers. A template literal renders a number in decimal, with a leading minus
  sign for a negative one.
\<close>

definition digit_char :: "nat \<Rightarrow> char" where
  "digit_char d = ''0123456789'' ! d"

fun show_nat :: "nat \<Rightarrow> string" where
  "show_nat n = (if n < 10 then [digit_char n] else show_nat (n div 10) @ [digit_char (n mod 10)])"

declare show_nat.simps [simp del]

definition show_int :: "int \<Rightarrow> string" where
  "show_int i = (if i < 0 then CHR ''-'' # show_nat (nat (- i)) else show_nat (nat i))"

text \<open>
  A number that may be \<open>NaN\<close> is an \<open>int option\<close>, \<open>None\<close> being \<open>NaN\<close>; a difference
  with a \<open>NaN\<close> operand is \<open>NaN\<close>.
\<close>

definition js_sub :: "int option \<Rightarrow> int option \<Rightarrow> int option" where
  "js_sub a b = (case (a, b) of (Some x, Some y) \<Rightarrow> Some (x - y) | _ \<Rightarrow> None)"

text \<open>
  Optional fields (\<open>T | null | undefined\<close>) are \<open>option\<close> values. The operator \<open>||\<close> takes
  its right operand when the left one is falsy: absent, the number \<open>0\<close>, the empty string or
  \<open>false\<close>.
\<close>

definition truthy_num :: "int option \<Rightarrow> bool" where
  "truthy_num x = (case x of None \<Rightarrow> False | Some n \<Rightarrow> n \<noteq> 0)"

definition truthy_str :: "string option \<Rightarrow> bool" where
  "truthy_str x = (case x of None \<Rightarrow> False | Some s \<Rightarrow> s \<noteq> [])"

definition num_or :: "int option \<Rightarrow> int \<Rightarrow> int" where
  "num_or x d = (case x of None \<Rightarrow> d | Some n \<Rightarrow> if n \<noteq> 0 then n else d)"

definition str_or :: "string option \<Rightarrow> string \<Rightarrow> string" where
  "str_or x d = (case x of None \<Rightarrow> d | Some s \<Rightarrow> if s \<noteq> [] then s else d)"

definition bool_or :: "bool option \<Rightarrow> bool \<Rightarrow> bool" where
  "bool_or x d = (case x of None \<Rightarrow> d | Some b \<Rightarrow> if b then b else d)"

text \<open>
  \<open>Array.prototype.find\<close> is \<open>List.find\<close>. \<open>Array.prototype.sort\<close> with a comparator is a
  stable sort: an element moves in front of another one only when the comparator is
  negative or when it already came first and the comparator is zero.
\<close>

fun insert_cmp :: "('a \<Rightarrow> 'a \<Rightarrow> int) \<Rightarrow> 'a \<Rightarrow> 'a list \<Rightarrow> 'a list" where
  "insert_cmp cmp x [] = [x]"
| "insert_cmp cmp x (y # ys) = (if cmp x y \<le> 0 then x # y # ys else y # insert_cmp cmp x ys)"

definition js_sort :: "('a \<Rightarrow> 'a \<Rightarrow> int) \<Rightarrow> 'a list \<Rightarrow> 'a list" where
  "js_sort cmp xs = foldr (insert_cmp cmp) xs []"

section \<open>Records of the Shaka library (types.ts)\<close>

record ShakaVariantTrack =
  vt_id :: int
  vt_active :: bool
  vt_type :: string
  vt_bandwidth :: int
  vt_width :: "int option"
  vt_height :: "int option"
  vt_codecs :: "string option"
  vt_videoCodec :: "string option"

record ShakaTextTrack =
  tt_id :: int
  tt_language :: string
  tt_label :: "string option"
  tt_kind :: "string option"
  tt_primary :: "bool option"

record ShakaLanguageRole =
  lr_language :: string
  lr_role :: string
  lr_label :: "string option"

record ShakaError =
  err_severity :: int
  err_category :: int
  err_code :: int
  err_message :: "string option"

text \<open>
  An event object of the library: its type, and the fields that the handlers read after
  casting it (\<open>buffering\<close>, \<open>newTrack\<close>, \<open>detail\<close>).
\<close>

record ShakaEvent =
  se_type :: string
  se_buffering :: "bool option"
  se_newTrack :: "ShakaVariantTrack option"
  se_detail :: "ShakaError option"

text \<open>A value caught from a rejected promise: an \<open>Error\<close> instance with its message, or anything else.\<close>

datatype js_exn = ErrorObject string | NonError string

section \<open>Records of the host player\<close>

record VideoQuality =
  q_id :: string
  q_width :: int
  q_height :: int
  q_bitrate :: int
  q_codec :: string
  q_index :: nat

record AudioTrack =
  at_id :: string
  at_label :: string
  at_language :: string
  at_kind :: string

record TextTrackInit =
  tx_id :: string
  tx_label :: string
  tx_language :: string
  tx_kind :: string
  tx_default :: bool

text \<open>
  A DOM event of the host: its type, its detail and its trigger. The detail is whatever
  object the code put there.
\<close>

datatype detail =
    NoDetail
  | NullDetail
  | EventDetail ShakaEvent
  | InstanceDetail nat
  | CtorDetail
  | ExnDetail js_exn

datatype DOMEvent = DOMEvent (de_type: string) (de_detail: detail) (de_trigger: "DOMEvent option")

record Src =
  src_src :: "string option"
  src_type :: "string option"

section \<open>The Shaka player instance and the calls made on it\<close>

text \<open>
  What an instance answers when the controller queries it. \<open>load\<close> gives the value the
  returned promise rejects with, if it rejects.
\<close>

record ShakaPlayer =
  player_ref :: nat
  getVariantTracks :: "ShakaVariantTrack list"
  getAudioLanguagesAndRoles :: "ShakaLanguageRole list"
  getTextTracks :: "ShakaTextTrack list"
  isLive :: bool
  seekRange_start :: "int option"
  seekRange_end :: "int option"
  getNetworkingEngine :: "nat option"
  load :: "string \<Rightarrow> js_exn option"

record ShakaProviderConfig =
  cfg_config :: "nat option"
  cfg_requestFilter :: "nat option"
  cfg_responseFilter :: "nat option"

datatype handler =
    H_dispatchShakaEvent
  | H_onError
  | H_onAdaptation
  | H_onTracksChanged
  | H_onLoaded
  | H_onBuffering
  | H_onUserQualityChange
  | H_onUserAudioChange
  | H_enableAutoQuality
  | H_liveSync
  | H_liveSyncPosition

datatype shaka_config = UserConfig nat | AbrEnabled bool

datatype sync_position = Finite int | Infinity

datatype list_target = Qualities | AudioTracks

datatype error_value = NoError | ShakaErr ShakaError | Caught js_exn

datatype payload =
    Undefined
  | StreamType string
  | Duration int
  | MediaError string int error_value
  | ProviderSetup

text \<open>
  Every call the adapter makes on the library, on the host context, on the video element
  and on the browser, in the order it makes them.
\<close>

datatype call =
    Construct nat
  | AddEventListener string handler
  | Callback nat nat
  | PlayerDispatch DOMEvent
  | Configure shaka_config
  | RegisterRequestFilter nat nat
  | RegisterResponseFilter nat nat
  | SetEnableAuto handler
  | ListenEvent list_target string handler
  | Effect handler
  | Notify string payload "DOMEvent option"
  | QualitiesSetAuto bool DOMEvent
  | QualitiesAdd VideoQuality DOMEvent
  | QualitiesSelect VideoQuality bool DOMEvent
  | AudioTracksAdd AudioTrack DOMEvent
  | TextTracksAdd TextTrackInit nat DOMEvent
  | VideoDispatch DOMEvent
  | SelectVariantTrack ShakaVariantTrack bool
  | SetCurrentTime
  | SelectAudioLanguage string string
  | SelectTextTrack ShakaTextTrack
  | SetTextTrackVisibility bool
  | Load string
  | DestroyInstance
  | Log string
  | RafStart handler
  | StopLiveSync
  | RafStop
  | SetLiveSyncPosition sync_position
  | LoadScript string
  | InstallPolyfills
  | DynamicImport
  | SuperSetup
  | RemoveSource
  | SetPreload string
  | AppendSource Src string
  | SetCurrentSrc Src

section \<open>Build flags and helpers imported from outside the provider\<close>

text \<open>
  The constructor makes a player for a video element. A namespace object has a \<open>Player\<close>
  constructor when it is a valid Shaka namespace, and may have \<open>polyfill.installAll\<close>.
\<close>

type_synonym ShakaConstructor = "nat \<Rightarrow> ShakaPlayer"

record ShakaNamespace =
  ns_Player :: "ShakaConstructor option"
  ns_polyfill :: bool

text \<open>
  The library source: a URL, a namespace object, a dynamic import (given by what its promise
  settles with: a rejection, or the \<open>default\<close> export if it is an object), or nothing.
\<close>

datatype ShakaLibrary =
    LibUrl string
  | LibNamespace ShakaNamespace
  | LibLoader "js_exn + ShakaNamespace option"
  | LibUndefined

record Env =
  DEV :: bool
  IS_CHROME :: bool
  camelToKebabCase :: "string \<Rightarrow> string"
  getLangName :: "string \<Rightarrow> string option"
  coerceToError :: "js_exn \<Rightarrow> js_exn"
  loadScript :: "string \<Rightarrow> js_exn option"
  window_shaka :: "ShakaNamespace option"
  MediaSource_defined :: bool

section \<open>ShakaController (shaka.ts)\<close>

text \<open>
  The private fields of the controller, its public \<open>config\<close>, and the parts of the media
  context and of the video element that it reads. \<open>ctx_qualities\<close> is the item array of the
  host's quality list, to which \<open>ListSymbol.add\<close> appends. \<open>MediaContext.player\<close> is taken as
  present: \<open>setup\<close> dereferences it before any listener can fire.
\<close>

record ShakaController =
  video :: nat
  shaka_instance :: "ShakaPlayer option"
  callbacks :: "nat list"
  stopLiveSync :: bool
  config :: ShakaProviderConfig
  ctx_logger :: bool
  ctx_canPlay :: bool
  ctx_live :: bool
  ctx_qualities :: "VideoQuality list"
  ctx_qualities_auto :: bool
  ctx_qualities_selected :: "VideoQuality option"
  ctx_qualities_switch :: string
  ctx_audioTracks_selected :: "AudioTrack option"
  ctx_audioTracks_selectedIndex :: int
  ctx_source :: "Src option"
  video_currentTime :: "int option"

definition toDOMEventType :: "Env \<Rightarrow> string \<Rightarrow> string" where
  "toDOMEventType env type = ''shaka-'' @ camelToKebabCase env type"

definition createDOMEvent :: "Env \<Rightarrow> string \<Rightarrow> detail \<Rightarrow> DOMEvent" where
  "createDOMEvent env type data = DOMEvent (toDOMEventType env type) data None"

definition dev_log :: "Env \<Rightarrow> ShakaController \<Rightarrow> string \<Rightarrow> call list" where
  "dev_log env c msg = (if DEV env \<and> ctx_logger c then [Log msg] else [])"

subsection \<open>Quality, audio and text track projection\<close>

definition has_resolution :: "ShakaVariantTrack \<Rightarrow> bool" where
  "has_resolution track = (truthy_num (vt_height track) \<and> truthy_num (vt_width track))"

text \<open>
  The \<open>Map\<close> from the height, as a string, to a track keeps its keys in insertion order:
  \<open>set\<close> on a key that is present replaces the value in place.
\<close>

definition group_track ::
  "ShakaVariantTrack \<Rightarrow> (string \<times> ShakaVariantTrack) list \<Rightarrow> (string \<times> ShakaVariantTrack) list" where
  "group_track track uq =
     (if has_resolution track then
        (let key = show_int (num_or (vt_height track) 0) in
         case map_of uq key of
           None \<Rightarrow> AList.update key track uq
         | Some old \<Rightarrow>
             if vt_bandwidth track > vt_bandwidth old
             then AList.update key track uq
             else uq)
      else uq)"

definition uniqueQualities :: "ShakaVariantTrack list \<Rightarrow> (string \<times> ShakaVariantTrack) list" where
  "uniqueQualities variantTracks = fold group_track variantTracks []"

definition by_height_desc :: "ShakaVariantTrack \<Rightarrow> ShakaVariantTrack \<Rightarrow> int" where
  "by_height_desc a b = num_or (vt_height b) 0 - num_or (vt_height a) 0"

definition sortedQualities :: "ShakaVariantTrack list \<Rightarrow> ShakaVariantTrack list" where
  "sortedQualities variantTracks = js_sort by_height_desc (map snd (uniqueQualities variantTracks))"

definition toQuality :: "nat \<Rightarrow> ShakaVariantTrack \<Rightarrow> VideoQuality" where
  "toQuality i track =
     \<lparr> q_id = ''shaka-quality-'' @ show_int (vt_id track),
       q_width = num_or (vt_width track) 0,
       q_height = num_or (vt_height track) 0,
       q_bitrate = num_or (Some (vt_bandwidth track)) 0,
       q_codec = str_or (vt_videoCodec track) (str_or (vt_codecs track) ''''),
       q_index = i \<rparr>"

definition updateQualityTracks :: "DOMEvent \<Rightarrow> ShakaController \<Rightarrow> ShakaController \<times> call list" where
  "updateQualityTracks trigger c =
     (case shaka_instance c of
        None \<Rightarrow> (c, [])
      | Some inst \<Rightarrow>
          (let variantTracks = getVariantTracks inst;
               qualities = map (\<lambda>(i, track). toQuality i track)
                             (enumerate 0 (sortedQualities variantTracks));
               c' = c\<lparr>ctx_qualities := ctx_qualities c @ qualities\<rparr>;
               adds = map (\<lambda>quality. QualitiesAdd quality trigger) qualities;
               selects =
                 (case find vt_active variantTracks of
                    None \<Rightarrow> []
                  | Some activeTrack \<Rightarrow>
                      (case find (\<lambda>q. Some (q_height q) = vt_height activeTrack) (ctx_qualities c') of
                         None \<Rightarrow> []
                       | Some activeQuality \<Rightarrow> [QualitiesSelect activeQuality True trigger]))
           in (c', adds @ selects)))"

definition toAudioTrack :: "Env \<Rightarrow> nat \<Rightarrow> ShakaLanguageRole \<Rightarrow> AudioTrack" where
  "toAudioTrack env index langRole =
     \<lparr> at_id = ''shaka-audio-'' @ show_nat index,
       at_label = str_or (lr_label langRole)
                    (str_or (getLangName env (lr_language langRole))
                       (str_or (Some (lr_language langRole)) '''')),
       at_language = str_or (Some (lr_language langRole)) '''',
       at_kind = str_or (Some (lr_role langRole)) ''main'' \<rparr>"

definition updateAudioTracks :: "Env \<Rightarrow> DOMEvent \<Rightarrow> ShakaController \<Rightarrow> ShakaController \<times> call list" where
  "updateAudioTracks env trigger c =
     (case shaka_instance c of
        None \<Rightarrow> (c, [])
      | Some inst \<Rightarrow>
          (c, map (\<lambda>(index, langRole). AudioTracksAdd (toAudioTrack env index langRole) trigger)
                (enumerate 0 (getAudioLanguagesAndRoles inst))))"

definition toTextTrack :: "Env \<Rightarrow> ShakaTextTrack \<Rightarrow> TextTrackInit" where
  "toTextTrack env shakaTrack =
     \<lparr> tx_id = ''shaka-text-'' @ show_int (tt_id shakaTrack),
       tx_label = str_or (tt_label shakaTrack)
                    (str_or (getLangName env (tt_language shakaTrack))
                       (str_or (Some (tt_language shakaTrack)) '''')),
       tx_language = str_or (Some (tt_language shakaTrack)) '''',
       tx_kind = str_or (tt_kind shakaTrack) ''subtitles'',
       tx_default = bool_or (tt_primary shakaTrack) False \<rparr>"

text \<open>The added text track gets ready state 2 and a mode-change hook closed over the Shaka track.\<close>

definition updateTextTracks :: "Env \<Rightarrow> DOMEvent \<Rightarrow> ShakaController \<Rightarrow> ShakaController \<times> call list" where
  "updateTextTracks env trigger c =
     (case shaka_instance c of
        None \<Rightarrow> (c, [])
      | Some inst \<Rightarrow>
          (c, map (\<lambda>shakaTrack. TextTracksAdd (toTextTrack env shakaTrack) 2 trigger)
                (getTextTracks inst)))"

definition onModeChange :: "ShakaTextTrack \<Rightarrow> string \<Rightarrow> ShakaController \<Rightarrow> ShakaController \<times> call list" where
  "onModeChange shakaTrack mode c =
     (case shaka_instance c of
        None \<Rightarrow> (c, [])
      | Some inst \<Rightarrow>
          if mode = ''showing'' then
            (case find (\<lambda>t. tt_id t = tt_id shakaTrack) (getTextTracks inst) of
               None \<Rightarrow> (c, [])
             | Some targetTrack \<Rightarrow> (c, [SelectTextTrack targetTrack, SetTextTrackVisibility True]))
          else (c, [SetTextTrackVisibility False]))"

subsection \<open>Event handlers\<close>

definition dispatchShakaEvent :: "Env \<Rightarrow> ShakaEvent \<Rightarrow> ShakaController \<Rightarrow> ShakaController \<times> call list" where
  "dispatchShakaEvent env event c =
     (c, [PlayerDispatch (createDOMEvent env (se_type event) (EventDetail event))])"

definition onBuffering :: "Env \<Rightarrow> ShakaEvent \<Rightarrow> ShakaController \<Rightarrow> ShakaController \<times> call list" where
  "onBuffering env event c =
     (let trigger = createDOMEvent env ''buffering'' (EventDetail event)
      in if bool_or (se_buffering event) False
         then (c, [Notify ''waiting'' Undefined (Some trigger)])
         else (c, []))"

definition onLoaded :: "Env \<Rightarrow> ShakaController \<Rightarrow> ShakaController \<times> call list" where
  "onLoaded env c =
     (if ctx_canPlay c then (c, [])
      else case shaka_instance c of
        None \<Rightarrow> (c, [])
      | Some inst \<Rightarrow>
          (let trigger = createDOMEvent env ''loaded'' NullDetail;
               streamType = [Notify ''stream-type-change''
                               (StreamType (if isLive inst then ''live'' else ''on-demand''))
                               (Some trigger)];
               duration =
                 (if isLive inst then
                    (case js_sub (seekRange_end inst) (seekRange_start inst) of
                       None \<Rightarrow> []
                     | Some d \<Rightarrow>
                         if d > 0 then [Notify ''duration-change'' (Duration d) (Some trigger)]
                         else [])
                  else []);
               setAuto = [QualitiesSetAuto True trigger];
               (c1, qualityCalls) = updateQualityTracks trigger c;
               (c2, audioCalls) = updateAudioTracks env trigger c1;
               (c3, textCalls) = updateTextTracks env trigger c2;
               canplay = [VideoDispatch (DOMEvent ''canplay'' NoDetail (Some trigger))]
           in (c3, streamType @ duration @ setAuto @ qualityCalls @ audioCalls @ textCalls @ canplay)))"

definition onTracksChanged :: "Env \<Rightarrow> ShakaEvent \<Rightarrow> ShakaController \<Rightarrow> ShakaController \<times> call list" where
  "onTracksChanged env event c =
     (let trigger = createDOMEvent env ''trackschanged'' (EventDetail event)
      in if length (ctx_qualities c) = 0 then updateQualityTracks trigger c else (c, []))"

definition onAdaptation :: "Env \<Rightarrow> ShakaEvent \<Rightarrow> ShakaController \<Rightarrow> ShakaController \<times> call list" where
  "onAdaptation env event c =
     (case se_newTrack event of
        None \<Rightarrow> (c, [])
      | Some newTrack \<Rightarrow>
          if vt_type newTrack \<noteq> ''variant'' then (c, [])
          else (case find (\<lambda>q. Some (q_height q) = vt_height newTrack) (ctx_qualities c) of
                  None \<Rightarrow> (c, [])
                | Some quality \<Rightarrow>
                    (let trigger = createDOMEvent env ''adaptation'' (EventDetail event)
                     in (c, [QualitiesSelect quality True trigger]))))"

definition onFatalError :: "ShakaError \<Rightarrow> ShakaController \<Rightarrow> ShakaController \<times> call list" where
  "onFatalError error c =
     (c, [Notify ''error''
            (MediaError (str_or (err_message error) (''Shaka error code: '' @ show_int (err_code error)))
               1 (ShakaErr error))
            None])"

definition onError :: "Env \<Rightarrow> ShakaEvent \<Rightarrow> ShakaController \<Rightarrow> ShakaController \<times> call list" where
  "onError env event c =
     (case se_detail event of
        None \<Rightarrow> (c, [])
      | Some error \<Rightarrow>
          (let logs = dev_log env c (''[vidstack] Shaka error code: '' @ show_int (err_code error));
               (c', calls) = onFatalError error c
           in (c', logs @ calls)))"

definition enableAutoQuality :: "ShakaController \<Rightarrow> ShakaController \<times> call list" where
  "enableAutoQuality c =
     (case shaka_instance c of
        None \<Rightarrow> (c, [])
      | Some inst \<Rightarrow> (c, [Configure (AbrEnabled True)]))"

definition onUserQualityChange :: "Env \<Rightarrow> ShakaController \<Rightarrow> ShakaController \<times> call list" where
  "onUserQualityChange env c =
     (case shaka_instance c of
        None \<Rightarrow> (c, [])
      | Some inst \<Rightarrow>
          if ctx_qualities_auto c then (c, [])
          else (case ctx_qualities_selected c of
                  None \<Rightarrow> (c, [])
                | Some selectedQuality \<Rightarrow>
                    (let disableAbr = [Configure (AbrEnabled False)];
                         variantTracks = getVariantTracks inst;
                         matchingTrack =
                           find (\<lambda>track. vt_height track = Some (q_height selectedQuality)) variantTracks;
                         selectCalls =
                           (case matchingTrack of
                              None \<Rightarrow> []
                            | Some track \<Rightarrow>
                                [SelectVariantTrack track (ctx_qualities_switch c = ''current'')]);
                         chromeFix = (if IS_CHROME env then [SetCurrentTime] else [])
                     in (c, disableAbr @ selectCalls @ chromeFix))))"

definition onUserAudioChange :: "ShakaController \<Rightarrow> ShakaController \<times> call list" where
  "onUserAudioChange c =
     (case shaka_instance c of
        None \<Rightarrow> (c, [])
      | Some inst \<Rightarrow>
          (case ctx_audioTracks_selected c of
             None \<Rightarrow> (c, [])
           | Some selectedTrack \<Rightarrow>
               (let audioLanguagesAndRoles = getAudioLanguagesAndRoles inst;
                    index = ctx_audioTracks_selectedIndex c
                in if index \<ge> 0 \<and> index < int (length audioLanguagesAndRoles)
                   then (let langRole = audioLanguagesAndRoles ! nat index
                         in (c, [SelectAudioLanguage (lr_language langRole) (lr_role langRole)]))
                   else (c, []))))"

subsection \<open>Live sync\<close>

text \<open>The effect body: its calls, and the clean-up it hands back to the effect (\<open>raf.stop\<close>).\<close>

definition liveSync :: "ShakaController \<Rightarrow> call list \<times> call option" where
  "liveSync c =
     (if \<not> ctx_live c then ([], None)
      else ([RafStart H_liveSyncPosition], Some RafStop))"

definition liveSyncPosition :: "ShakaController \<Rightarrow> ShakaController \<times> call list" where
  "liveSyncPosition c =
     (case shaka_instance c of
        None \<Rightarrow> (c, [])
      | Some inst \<Rightarrow>
          (let position = js_sub (seekRange_end inst) (video_currentTime c)
           in (c, [SetLiveSyncPosition (case position of Some p \<Rightarrow> Finite p | None \<Rightarrow> Infinity)])))"

subsection \<open>Network filters and instance callbacks\<close>



text \<open>
  \<open>#callbacks\<close> is a \<open>Set\<close>: a list without repetition, in insertion order. \<open>onInstance\<close>
  returns a closure that deletes the callback; \<open>onInstance_dispose\<close> is that closure.
\<close>

definition Set_add :: "'a \<Rightarrow> 'a list \<Rightarrow> 'a list" where
  "Set_add x xs = (if x \<in> set xs then xs else xs @ [x])"

definition Set_delete :: "'a \<Rightarrow> 'a list \<Rightarrow> 'a list" where
  "Set_delete x xs = removeAll x xs"

definition onInstance :: "nat \<Rightarrow> ShakaController \<Rightarrow> ShakaController" where
  "onInstance callback c = c\<lparr>callbacks := Set_add callback (callbacks c)\<rparr>"

definition onInstance_dispose :: "nat \<Rightarrow> ShakaController \<Rightarrow> ShakaController" where
  "onInstance_dispose callback c = c\<lparr>callbacks := Set_delete callback (callbacks c)\<rparr>"

subsection \<open>Setup, load and destroy\<close>

definition shaka_events :: "string list" where
  "shaka_events =
     [''buffering'', ''loading'', ''loaded'', ''unloading'', ''adaptation'', ''trackschanged'',
      ''variantchanged'', ''textchanged'', ''texttrackvisibility'', ''streaming'',
      ''manifestparsed'']"

definition controller_setup :: "Env \<Rightarrow> ShakaConstructor \<Rightarrow> ShakaController \<Rightarrow> ShakaController \<times> call list" where
  "controller_setup env ctor c =
     (let inst = ctor (video c);
          construct = [Construct (video c)];
          redispatch = map (\<lambda>event. AddEventListener event H_dispatchShakaEvent) shaka_events;
          errors = [AddEventListener ''error'' H_onError];
          instanceCallbacks = map (\<lambda>callback. Callback callback (player_ref inst)) (callbacks c);
          instanceEvent =
            [PlayerDispatch (DOMEvent ''shaka-instance'' (InstanceDetail (player_ref inst)) None)];
          configure =
            (case cfg_config (config c) of
               None \<Rightarrow> []
             | Some cfg \<Rightarrow> [Configure (UserConfig cfg)]);
          filters =
            (case getNetworkingEngine inst of
               None \<Rightarrow> []
             | Some networkingEngine \<Rightarrow>
                 (case cfg_requestFilter (config c) of
                    None \<Rightarrow> []
                  | Some f \<Rightarrow> [RegisterRequestFilter networkingEngine f])
                 @ (case cfg_responseFilter (config c) of
                      None \<Rightarrow> []
                    | Some f \<Rightarrow> [RegisterResponseFilter networkingEngine f]));
          tracks =
            [AddEventListener ''adaptation'' H_onAdaptation,
             AddEventListener ''trackschanged'' H_onTracksChanged,
             AddEventListener ''loaded'' H_onLoaded,
             AddEventListener ''buffering'' H_onBuffering];
          user =
            [SetEnableAuto H_enableAutoQuality,
             ListenEvent Qualities ''change'' H_onUserQualityChange,
             ListenEvent AudioTracks ''change'' H_onUserAudioChange];
          sync = [Effect H_liveSync]
      in (c\<lparr>shaka_instance := Some inst, stopLiveSync := True\<rparr>,
          construct @ redispatch @ errors @ instanceCallbacks @ instanceEvent @ configure
            @ filters @ tracks @ user @ sync))"

text \<open>\<open>#reset\<close> has an empty body.\<close>

definition reset :: "ShakaController \<Rightarrow> ShakaController" where
  [simp]: "reset c = c"

definition loadSource :: "Env \<Rightarrow> Src \<Rightarrow> ShakaController \<Rightarrow> ShakaController \<times> call list" where
  "loadSource env src c0 =
     (let c = reset c0
      in case src_src src of
        None \<Rightarrow> (c, [])
      | Some url \<Rightarrow>
          (case shaka_instance c of
             None \<Rightarrow> (c, [])
           | Some inst \<Rightarrow>
               (case load inst url of
                  None \<Rightarrow> (c, [Load url])
                | Some error \<Rightarrow>
                    (c, [Load url]
                        @ dev_log env c ''[vidstack] Shaka load error''
                        @ [Notify ''error''
                             (MediaError
                                (case error of
                                   ErrorObject message \<Rightarrow> message
                                 | NonError v \<Rightarrow> ''Failed to load source'')
                                1 (Caught error))
                             None]))))"

text \<open>
  \<open>loadSource\<close> is an async function, and the definition above gives it as a caller that
  awaits it sees it. A caller that does not await it sees it in two parts: what runs at
  once, up to the \<open>await\<close> of \<open>instance.load\<close>, and what runs once that promise has settled.
\<close>

definition loadSource_start :: "Src \<Rightarrow> ShakaController \<Rightarrow> call list" where
  "loadSource_start src c =
     (case src_src src of
        None \<Rightarrow> []
      | Some url \<Rightarrow>
          (case shaka_instance c of
             None \<Rightarrow> []
           | Some inst \<Rightarrow> [Load url]))"

definition loadSource_settle :: "Env \<Rightarrow> Src \<Rightarrow> ShakaController \<Rightarrow> call list" where
  "loadSource_settle env src c =
     (case src_src src of
        None \<Rightarrow> []
      | Some url \<Rightarrow>
          (case shaka_instance c of
             None \<Rightarrow> []
           | Some inst \<Rightarrow>
               (case load inst url of
                  None \<Rightarrow> []
                | Some error \<Rightarrow>
                    dev_log env c ''[vidstack] Shaka load error''
                    @ [Notify ''error''
                         (MediaError
                            (case error of
                               ErrorObject message \<Rightarrow> message
                             | NonError v \<Rightarrow> ''Failed to load source'')
                            1 (Caught error))
                         None])))"

definition destroy :: "Env \<Rightarrow> ShakaController \<Rightarrow> ShakaController \<times> call list" where
  "destroy env c0 =
     (let c = reset c0;
          (c1, destroyCalls) =
            (case shaka_instance c of
               None \<Rightarrow> (c, [])
             | Some inst \<Rightarrow> (c\<lparr>shaka_instance := None\<rparr>, [DestroyInstance]));
          stopCalls = (if stopLiveSync c1 then [StopLiveSync] else []);
          c2 = c1\<lparr>stopLiveSync := False\<rparr>
      in (c2, destroyCalls @ stopCalls @ dev_log env c2 ''Destroyed Shaka instance''))"

subsection \<open>Delivery of a library event to the listeners added by setup\<close>

definition run_handler :: "Env \<Rightarrow> handler \<Rightarrow> ShakaEvent \<Rightarrow> ShakaController \<Rightarrow> ShakaController \<times> call list" where
  "run_handler env h event c =
     (case h of
        H_dispatchShakaEvent \<Rightarrow> dispatchShakaEvent env event c
      | H_onError \<Rightarrow> onError env event c
      | H_onAdaptation \<Rightarrow> onAdaptation env event c
      | H_onTracksChanged \<Rightarrow> onTracksChanged env event c
      | H_onLoaded \<Rightarrow> onLoaded env c
      | H_onBuffering \<Rightarrow> onBuffering env event c
      | H_onUserQualityChange \<Rightarrow> onUserQualityChange env c
      | H_onUserAudioChange \<Rightarrow> onUserAudioChange c
      | H_enableAutoQuality \<Rightarrow> enableAutoQuality c
      | H_liveSync \<Rightarrow> (c, fst (liveSync c))
      | H_liveSyncPosition \<Rightarrow> liveSyncPosition c)"

fun run_handlers :: "Env \<Rightarrow> handler list \<Rightarrow> ShakaEvent \<Rightarrow> ShakaController \<Rightarrow> ShakaController \<times> call list" where
  "run_handlers env [] event c = (c, [])"
| "run_handlers env (h # hs) event c =
     (let (c1, calls1) = run_handler env h event c;
          (c2, calls2) = run_handlers env hs event c1
      in (c2, calls1 @ calls2))"

text \<open>The listeners that a call sequence added for an event type, in the order they were added.\<close>

definition listeners_for :: "call list \<Rightarrow> string \<Rightarrow> handler list" where
  "listeners_for calls type =
     List.map_filter
       (\<lambda>x. case x of AddEventListener t h \<Rightarrow> if t = type then Some h else None | _ \<Rightarrow> None)
       calls"

definition receive :: "Env \<Rightarrow> call list \<Rightarrow> ShakaEvent \<Rightarrow> ShakaController \<Rightarrow> ShakaController \<times> call list" where
  "receive env setupCalls event c = run_handlers env (listeners_for setupCalls (se_type event)) event c"

section \<open>ShakaProvider (provider.ts) and ShakaLibLoader\<close>

record ShakaProvider =
  ctor :: "ShakaConstructor option"
  controller :: ShakaController
  library :: ShakaLibrary

subsection \<open>Provider methods that forward to the controller\<close>

definition provider_onInstance :: "nat \<Rightarrow> ShakaProvider \<Rightarrow> ShakaProvider \<times> call list" where
  "provider_onInstance callback p =
     (let calls =
            (case shaka_instance (controller p) of
               None \<Rightarrow> []
             | Some inst \<Rightarrow> [Callback callback (player_ref inst)])
      in (p\<lparr>controller := onInstance callback (controller p)\<rparr>, calls))"

definition provider_onInstance_dispose :: "nat \<Rightarrow> ShakaProvider \<Rightarrow> ShakaProvider" where
  "provider_onInstance_dispose callback p =
     p\<lparr>controller := onInstance_dispose callback (controller p)\<rparr>"



definition provider_destroy :: "Env \<Rightarrow> ShakaProvider \<Rightarrow> ShakaProvider \<times> call list" where
  "provider_destroy env p =
     (let (c, calls) = destroy env (controller p)
      in (p\<lparr>controller := c\<rparr>, calls))"

definition provider_loadSource ::
  "Env \<Rightarrow> Src \<Rightarrow> string option \<Rightarrow> ShakaProvider \<Rightarrow> ShakaProvider \<times> call list" where
  "provider_loadSource env src preload p =
     (case src_src src of
        None \<Rightarrow> (p, [RemoveSource])
      | Some url \<Rightarrow>
          (let before = [SetPreload (str_or preload ''''),
                         AppendSource src (str_or (src_type src) ''application/dash+xml'')];
               (c, calls) = loadSource env src (controller p)
           in (p\<lparr>controller := c\<rparr>, before @ calls @ [SetCurrentSrc src])))"

text \<open>
  The two parts of the provider's \<open>loadSource\<close> for a caller that does not await it: up to
  the \<open>await\<close> of the controller's \<open>loadSource\<close>, which itself runs up to its \<open>await\<close> of
  \<open>instance.load\<close>, and the rest once \<open>instance.load\<close> has settled.
\<close>

definition provider_loadSource_start :: "Src \<Rightarrow> string option \<Rightarrow> ShakaProvider \<Rightarrow> call list" where
  "provider_loadSource_start src preload p =
     (case src_src src of
        None \<Rightarrow> [RemoveSource]
      | Some url \<Rightarrow>
          [SetPreload (str_or preload ''''),
           AppendSource src (str_or (src_type src) ''application/dash+xml'')]
          @ loadSource_start src (reset (controller p)))"

definition provider_loadSource_settle :: "Env \<Rightarrow> Src \<Rightarrow> ShakaProvider \<Rightarrow> call list" where
  "provider_loadSource_settle env src p =
     (case src_src src of
        None \<Rightarrow> []
      | Some url \<Rightarrow> loadSource_settle env src (reset (controller p)) @ [SetCurrentSrc src])"

text \<open>
  The callback that the provider hands to the library loader. It calls \<open>loadSource\<close> without
  awaiting it, so only the first part of \<open>loadSource\<close> runs inside the callback.
  \<open>provider_onCtor_pending\<close> is the part that is left to run, on the state the callback
  leaves.
\<close>

definition provider_onCtor :: "Env \<Rightarrow> ShakaConstructor \<Rightarrow> ShakaProvider \<Rightarrow> ShakaProvider \<times> call list" where
  "provider_onCtor env ct p =
     (let p1 = p\<lparr>ctor := Some ct\<rparr>;
          (c, setupCalls) = controller_setup env ct (controller p1);
          p2 = p1\<lparr>controller := c\<rparr>;
          notifyCalls = [Notify ''provider-setup'' ProviderSetup None];
          loadCalls =
            (case ctx_source c of
               None \<Rightarrow> []
             | Some src \<Rightarrow> provider_loadSource_start src None p2)
      in (p2, setupCalls @ notifyCalls @ loadCalls))"

definition provider_onCtor_pending :: "Env \<Rightarrow> ShakaProvider \<Rightarrow> call list" where
  "provider_onCtor_pending env p =
     (case ctx_source (controller p) of
        None \<Rightarrow> []
      | Some src \<Rightarrow> provider_loadSource_settle env src p)"

subsection \<open>Loading the library\<close>

definition lib_onLoadStart :: "Env \<Rightarrow> ShakaProvider \<Rightarrow> call list" where
  "lib_onLoadStart env p =
     dev_log env (controller p) ''Starting to load Shaka Player''
     @ [PlayerDispatch (DOMEvent ''shaka-lib-load-start'' NoDetail None)]"

definition lib_onLoaded :: "Env \<Rightarrow> ShakaConstructor \<Rightarrow> ShakaProvider \<Rightarrow> ShakaProvider \<times> call list" where
  "lib_onLoaded env ct p =
     (let before = dev_log env (controller p) ''Loaded Shaka Player''
                   @ [PlayerDispatch (DOMEvent ''shaka-lib-loaded'' CtorDetail None)];
          (p', calls) = provider_onCtor env ct p
      in (p', before @ calls))"

definition lib_onLoadError :: "Env \<Rightarrow> js_exn \<Rightarrow> ShakaProvider \<Rightarrow> call list" where
  "lib_onLoadError env e p =
     (let error = coerceToError env e
      in dev_log env (controller p) ''[vidstack] Failed to load Shaka Player''
         @ [PlayerDispatch (DOMEvent ''shaka-lib-load-error'' (ExnDetail error) None),
            Notify ''error''
              (MediaError (case error of ErrorObject message \<Rightarrow> message | NonError v \<Rightarrow> v)
                 4 (Caught error))
              None])"

definition install_polyfills :: "ShakaNamespace \<Rightarrow> call list" where
  "install_polyfills ns = (if ns_polyfill ns then [InstallPolyfills] else [])"

definition load_failed_message :: "Env \<Rightarrow> string" where
  "load_failed_message env =
     (if DEV env
      then ''[vidstack] failed loading Shaka Player. Could not find a valid `shaka.Player` constructor on window''
      else '''')"

definition import_failed_message :: "Env \<Rightarrow> string" where
  "import_failed_message env =
     (if DEV env
      then ''[vidstack] failed importing Shaka Player. Dynamic import returned invalid object.''
      else '''')"

text \<open>
  \<open>loadShakaScript\<close> does nothing unless the library is a URL. A script that loads but leaves
  no valid \<open>shaka.Player\<close> on the window throws inside the \<open>try\<close>, and so ends in the load
  error callback, as a rejected script load does.
\<close>

definition loadShakaScript ::
  "Env \<Rightarrow> ShakaLibrary \<Rightarrow> ShakaProvider \<Rightarrow> (ShakaProvider \<times> call list) \<times> ShakaConstructor option" where
  "loadShakaScript env src p =
     (case src of
        LibUrl url \<Rightarrow>
          (let start = lib_onLoadStart env p @ [LoadScript url]
           in case loadScript env url of
                Some err \<Rightarrow> ((p, start @ lib_onLoadError env err p), None)
              | None \<Rightarrow>
                  (case window_shaka env of
                     None \<Rightarrow>
                       ((p, start @ lib_onLoadError env (ErrorObject (load_failed_message env)) p), None)
                   | Some shaka \<Rightarrow>
                       (case ns_Player shaka of
                          None \<Rightarrow>
                            ((p, start
                                 @ lib_onLoadError env (ErrorObject (load_failed_message env)) p),
                             None)
                        | Some ct \<Rightarrow>
                            (let (p', calls) = lib_onLoaded env ct p
                             in ((p', start @ install_polyfills shaka @ calls), Some ct)))))
      | _ \<Rightarrow> ((p, []), None))"

text \<open>
  \<open>importShaka\<close> is reached only when the library is not a URL. An object that is not a valid
  namespace is called as a dynamic import, which throws inside the \<open>try\<close>.
\<close>

definition importShaka ::
  "Env \<Rightarrow> ShakaLibrary \<Rightarrow> ShakaProvider \<Rightarrow> (ShakaProvider \<times> call list) \<times> ShakaConstructor option" where
  "importShaka env loader p =
     (case loader of
        LibUndefined \<Rightarrow> ((p, []), None)
      | LibNamespace ns \<Rightarrow>
          (case ns_Player ns of
             Some ct \<Rightarrow>
               (let (p', calls) = lib_onLoaded env ct p
                in ((p', lib_onLoadStart env p @ install_polyfills ns @ calls), Some ct))
           | None \<Rightarrow>
               ((p, lib_onLoadStart env p
                    @ lib_onLoadError env (ErrorObject ''loader is not a function'') p),
                None))
      | LibLoader outcome \<Rightarrow>
          (case outcome of
             Inl err \<Rightarrow> ((p, lib_onLoadStart env p @ [DynamicImport] @ lib_onLoadError env err p), None)
           | Inr None \<Rightarrow>
               ((p, lib_onLoadStart env p @ [DynamicImport]
                    @ lib_onLoadError env (ErrorObject (import_failed_message env)) p),
                None)
           | Inr (Some ns) \<Rightarrow>
               (case ns_Player ns of
                  None \<Rightarrow>
                    ((p, lib_onLoadStart env p @ [DynamicImport]
                         @ lib_onLoadError env (ErrorObject (import_failed_message env)) p),
                     None)
                | Some ct \<Rightarrow>
                    (let (p', calls) = lib_onLoaded env ct p
                     in ((p', lib_onLoadStart env p @ [DynamicImport] @ install_polyfills ns @ calls),
                         Some ct))))
      | LibUrl url \<Rightarrow> ((p, []), None))"

definition is_url :: "ShakaLibrary \<Rightarrow> bool" where
  "is_url lib = (case lib of LibUrl url \<Rightarrow> True | _ \<Rightarrow> False)"

definition unsupported_message :: string where
  "unsupported_message = ''[vidstack] Shaka Player is not supported in this environment''"

text \<open>
  The loader's own continuation, the \<open>MediaSource\<close> test, resumes as soon as the constructor
  is returned, right after the callback has started \<open>instance.load\<close>. The pending part of the
  provider's \<open>loadSource\<close> runs when \<open>instance.load\<close> has settled, which takes the library a
  manifest request: it comes last.
\<close>

definition startLoading ::
  "Env \<Rightarrow> ShakaProvider \<Rightarrow> (ShakaProvider \<times> call list) \<times> ShakaConstructor option" where
  "startLoading env p =
     (let logs = dev_log env (controller p) ''Loading Shaka Player Library'';
          ((p1, calls1), ctor1) = loadShakaScript env (library p) p;
          ((p2, calls2), ctor2) =
            (if Option.is_none ctor1 \<and> \<not> is_url (library p)
             then importShaka env (library p) p1
             else ((p1, []), ctor1))
      in case ctor2 of
           None \<Rightarrow> ((p2, logs @ calls1 @ calls2), None)
         | Some ct \<Rightarrow>
             if \<not> MediaSource_defined env then
               ((p2, logs @ calls1 @ calls2
                     @ dev_log env (controller p2) unsupported_message
                     @ [PlayerDispatch (DOMEvent ''shaka-unsupported'' NoDetail None),
                        Notify ''error'' (MediaError unsupported_message 4 NoError) None]
                     @ provider_onCtor_pending env p2),
                None)
             else ((p2, logs @ calls1 @ calls2 @ provider_onCtor_pending env p2), Some ct))"

definition provider_setup :: "Env \<Rightarrow> ShakaProvider \<Rightarrow> ShakaProvider \<times> call list" where
  "provider_setup env p =
     (let ((p', calls), result) = startLoading env p
      in (p', [SuperSetup] @ calls))"

section \<open>Observations on call sequences\<close>

definition added_qualities :: "call list \<Rightarrow> VideoQuality list" where
  "added_qualities calls =
     List.map_filter (\<lambda>x. case x of QualitiesAdd q t \<Rightarrow> Some q | _ \<Rightarrow> None) calls"

definition added_audio :: "call list \<Rightarrow> AudioTrack list" where
  "added_audio calls =
     List.map_filter (\<lambda>x. case x of AudioTracksAdd a t \<Rightarrow> Some a | _ \<Rightarrow> None) calls"

definition added_text :: "call list \<Rightarrow> TextTrackInit list" where
  "added_text calls =
     List.map_filter (\<lambda>x. case x of TextTracksAdd a r t \<Rightarrow> Some a | _ \<Rightarrow> None) calls"

definition player_dispatches :: "call list \<Rightarrow> DOMEvent list" where
  "player_dispatches calls =
     List.map_filter (\<lambda>x. case x of PlayerDispatch e \<Rightarrow> Some e | _ \<Rightarrow> None) calls"

section \<open>Predicates used in the proofs\<close>

definition height_key :: "ShakaVariantTrack \<Rightarrow> string" where
  "height_key t = show_int (num_or (vt_height t) 0)"

definition height_of :: "ShakaVariantTrack \<Rightarrow> int" where
  "height_of t = num_or (vt_height t) 0"

text \<open>A track with a resolution that no seen track of the same height beats in bandwidth.\<close>

definition best_of :: "ShakaVariantTrack list \<Rightarrow> ShakaVariantTrack \<Rightarrow> bool" where
  "best_of seen t \<longleftrightarrow>
     t \<in> set seen \<and> has_resolution t \<and>
     (\<forall>t'\<in>set seen. has_resolution t' \<and> vt_height t' = vt_height t \<longrightarrow> vt_bandwidth t' \<le> vt_bandwidth t)"

text \<open>The loop invariant of the grouping loop, after the tracks \<open>seen\<close>.\<close>

definition uq_inv :: "ShakaVariantTrack list \<Rightarrow> (string \<times> ShakaVariantTrack) list \<Rightarrow> bool" where
  "uq_inv seen uq \<longleftrightarrow>
     distinct (map fst uq) \<and>
     (\<forall>k t. map_of uq k = Some t \<longrightarrow> k = height_key t \<and> best_of seen t) \<and>
     (\<forall>t\<in>set seen. has_resolution t \<longrightarrow> map_of uq (height_key t) \<noteq> None)"

text \<open>
  The filter registrations that a setup with the constructor \<open>ct\<close> makes, and the stages
  that the loader callback goes through, both read off the controller before setup.
\<close>

definition config_filters :: "ShakaConstructor \<Rightarrow> ShakaController \<Rightarrow> call list" where
  "config_filters ct c =
     (case getNetworkingEngine (ct (video c)) of
        None \<Rightarrow> []
      | Some eng \<Rightarrow>
          (case cfg_requestFilter (config c) of None \<Rightarrow> [] | Some f \<Rightarrow> [RegisterRequestFilter eng f])
          @ (case cfg_responseFilter (config c) of None \<Rightarrow> [] | Some f \<Rightarrow> [RegisterResponseFilter eng f]))"

definition setup_stages :: "ShakaConstructor \<Rightarrow> ShakaController \<Rightarrow> nat list" where
  "setup_stages ct c =
     [1] @ replicate 12 2 @ replicate (length (callbacks c)) 3 @ [4]
     @ (if cfg_config (config c) = None then [] else [5])
     @ replicate (length (config_filters ct c)) 6 @ [7, 7, 7, 7]
     @ (case ctx_source c of
          None \<Rightarrow> []
        | Some src \<Rightarrow> (case src_src src of None \<Rightarrow> [] | Some url \<Rightarrow> [8]))"

section \<open>A concrete player, controller and environment\<close>

definition ex_track_720_low :: ShakaVariantTrack where
  "ex_track_720_low =
     \<lparr> vt_id = 1, vt_active = False, vt_type = ''variant'', vt_bandwidth = 1000,
       vt_width = Some 1280, vt_height = Some 720,
       vt_codecs = Some ''avc1,mp4a'', vt_videoCodec = Some ''avc1'' \<rparr>"

definition ex_track_1080 :: ShakaVariantTrack where
  "ex_track_1080 =
     \<lparr> vt_id = 2, vt_active = True, vt_type = ''variant'', vt_bandwidth = 3000,
       vt_width = Some 1920, vt_height = Some 1080,
       vt_codecs = Some ''avc1,mp4a'', vt_videoCodec = None \<rparr>"

definition ex_track_720_high :: ShakaVariantTrack where
  "ex_track_720_high =
     \<lparr> vt_id = 3, vt_active = False, vt_type = ''variant'', vt_bandwidth = 1500,
       vt_width = Some 1280, vt_height = Some 720,
       vt_codecs = Some ''hvc1,mp4a'', vt_videoCodec = Some '''' \<rparr>"

definition ex_track_audio_only :: ShakaVariantTrack where
  "ex_track_audio_only =
     \<lparr> vt_id = 4, vt_active = False, vt_type = ''variant'', vt_bandwidth = 64,
       vt_width = None, vt_height = None,
       vt_codecs = Some ''mp4a'', vt_videoCodec = None \<rparr>"

definition ex_lang_en :: ShakaLanguageRole where
  "ex_lang_en = \<lparr> lr_language = ''en'', lr_role = '''', lr_label = None \<rparr>"

definition ex_lang_es :: ShakaLanguageRole where
  "ex_lang_es = \<lparr> lr_language = ''es'', lr_role = ''dub'', lr_label = Some ''Spanish'' \<rparr>"

definition ex_text_en :: ShakaTextTrack where
  "ex_text_en =
     \<lparr> tt_id = 7, tt_language = ''en'', tt_label = None, tt_kind = Some ''captions'',
       tt_primary = Some True \<rparr>"

definition ex_text_fr :: ShakaTextTrack where
  "ex_text_fr =
     \<lparr> tt_id = 8, tt_language = ''fr'', tt_label = Some ''Fran'', tt_kind = Some '''',
       tt_primary = None \<rparr>"

definition ex_error :: ShakaError where
  "ex_error = \<lparr> err_severity = 2, err_category = 1, err_code = 1001, err_message = None \<rparr>"

definition ex_player :: ShakaPlayer where
  "ex_player =
     \<lparr> player_ref = 1,
       getVariantTracks = [ex_track_720_low, ex_track_1080, ex_track_720_high, ex_track_audio_only],
       getAudioLanguagesAndRoles = [ex_lang_en, ex_lang_es],
       getTextTracks = [ex_text_en, ex_text_fr],
       isLive = False,
       seekRange_start = Some 0,
       seekRange_end = Some 60,
       getNetworkingEngine = Some 5,
       load = (\<lambda>url. if url = ''bad.mpd'' then Some (ErrorObject ''manifest not found'') else None) \<rparr>"

definition ex_ctor :: ShakaConstructor where
  "ex_ctor v = ex_player"

definition ex_env :: Env where
  "ex_env =
     \<lparr> DEV = False, IS_CHROME = False,
       camelToKebabCase = (\<lambda>s. s),
       getLangName = (\<lambda>code. if code = ''en'' then Some ''English'' else None),
       coerceToError = (\<lambda>e. e),
       loadScript = (\<lambda>url. None),
       window_shaka = Some \<lparr> ns_Player = Some ex_ctor, ns_polyfill = True \<rparr>,
       MediaSource_defined = True \<rparr>"

definition ex_fresh :: ShakaController where
  "ex_fresh =
     \<lparr> video = 0, shaka_instance = None, callbacks = [], stopLiveSync = False,
       config = \<lparr> cfg_config = Some 11, cfg_requestFilter = Some 21, cfg_responseFilter = Some 22 \<rparr>,
       ctx_logger = False, ctx_canPlay = False, ctx_live = False, ctx_qualities = [],
       ctx_qualities_auto = False, ctx_qualities_selected = None, ctx_qualities_switch = ''current'',
       ctx_audioTracks_selected = None, ctx_audioTracks_selectedIndex = -1,
       ctx_source = Some \<lparr> src_src = Some ''bad.mpd'', src_type = None \<rparr>,
       video_currentTime = Some 0 \<rparr>"

definition ex_controller :: ShakaController where
  "ex_controller = ex_fresh\<lparr>shaka_instance := Some ex_player, stopLiveSync := True\<rparr>"

definition ex_trigger :: DOMEvent where
  "ex_trigger = DOMEvent ''shaka-loaded'' NullDetail None"

definition ex_provider :: ShakaProvider where
  "ex_provider = \<lparr> ctor = None, controller = ex_fresh, library = LibUrl ''https://cdn.example/shaka.js'' \<rparr>"

text \<open>A provider with one instance callback registered before setup.\<close>

definition ex_provider_callback :: ShakaProvider where
  "ex_provider_callback = ex_provider\<lparr>controller := ex_fresh\<lparr>callbacks := [7]\<rparr>\<rparr>"



section \<open>Further observations on call sequences\<close>

text \<open>The error objects handed to \<open>ctx.notify('error', ...)\<close>, and the URLs handed to \<open>instance.load\<close>.\<close>

definition notified_errors :: "call list \<Rightarrow> error_value list" where
  "notified_errors calls =
     List.map_filter
       (\<lambda>x. case x of
              Notify type payload trigger \<Rightarrow>
                (case payload of
                   MediaError message code error \<Rightarrow> if type = ''error'' then Some error else None
                 | _ \<Rightarrow> None)
            | _ \<Rightarrow> None)
       calls"

definition load_calls :: "call list \<Rightarrow> string list" where
  "load_calls calls = List.map_filter (\<lambda>x. case x of Load url \<Rightarrow> Some url | _ \<Rightarrow> None) calls"

text \<open>The calls made on the player instance or on its networking engine.\<close>

definition is_library_call :: "call \<Rightarrow> bool" where
  "is_library_call x =
     (case x of
        Construct v \<Rightarrow> True
      | AddEventListener t h \<Rightarrow> True
      | Configure cfg \<Rightarrow> True
      | RegisterRequestFilter e f \<Rightarrow> True
      | RegisterResponseFilter e f \<Rightarrow> True
      | SelectVariantTrack t b \<Rightarrow> True
      | SelectAudioLanguage l r \<Rightarrow> True
      | SelectTextTrack t \<Rightarrow> True
      | SetTextTrackVisibility b \<Rightarrow> True
      | Load url \<Rightarrow> True
      | DestroyInstance \<Rightarrow> True
      | _ \<Rightarrow> False)"

definition library_calls :: "call list \<Rightarrow> call list" where
  "library_calls calls = filter is_library_call calls"


text \<open>
  The stage of the lifecycle that a call belongs to, in the order the code goes through
  them: library load (0), construction (1), the re-dispatch and error listeners (2), the
  instance callbacks (3), the \<open>shaka-instance\<close> event (4), configuration (5), filter
  registration (6), the track listeners (7), source load (8).
\<close>

definition lifecycle_stage :: "call \<Rightarrow> nat option" where
  "lifecycle_stage x =
     (case x of
        LoadScript url \<Rightarrow> Some 0
      | DynamicImport \<Rightarrow> Some 0
      | Construct v \<Rightarrow> Some 1
      | AddEventListener t h \<Rightarrow>
          if h = H_dispatchShakaEvent \<or> h = H_onError then Some 2 else Some 7
      | Callback cb r \<Rightarrow> Some 3
      | PlayerDispatch e \<Rightarrow> if de_type e = ''shaka-instance'' then Some 4 else None
      | Configure cfg \<Rightarrow> Some 5
      | RegisterRequestFilter e f \<Rightarrow> Some 6
      | RegisterResponseFilter e f \<Rightarrow> Some 6
      | Load url \<Rightarrow> Some 8
      | _ \<Rightarrow> None)"

definition lifecycle_stages :: "call list \<Rightarrow> nat list" where
  "lifecycle_stages calls = List.map_filter lifecycle_stage calls"

text \<open>
  The stages as the lifecycle sentence orders them: library load, construction,
  configuration, listeners, source load.
\<close>

definition stated_stage :: "call \<Rightarrow> nat option" where
  "stated_stage x =
     (case x of
        LoadScript url \<Rightarrow> Some 0
      | DynamicImport \<Rightarrow> Some 0
      | Construct v \<Rightarrow> Some 1
      | Configure cfg \<Rightarrow> Some 2
      | AddEventListener t h \<Rightarrow> Some 3
      | Load url \<Rightarrow> Some 4
      | _ \<Rightarrow> None)"

definition stated_stages :: "call list \<Rightarrow> nat list" where
  "stated_stages calls = List.map_filter stated_stage calls"



section \<open>Further concrete inputs\<close>

definition ex_event_loaded :: ShakaEvent where
  "ex_event_loaded =
     \<lparr> se_type = ''loaded'', se_buffering = None, se_newTrack = None, se_detail = None \<rparr>"

definition ex_event_trackschanged :: ShakaEvent where
  "ex_event_trackschanged =
     \<lparr> se_type = ''trackschanged'', se_buffering = None, se_newTrack = None, se_detail = None \<rparr>"

definition ex_event_error :: ShakaEvent where
  "ex_event_error =
     \<lparr> se_type = ''error'', se_buffering = None, se_newTrack = None, se_detail = Some ex_error \<rparr>"

definition ex_quality_720 :: VideoQuality where
  "ex_quality_720 =
     \<lparr> q_id = ''shaka-quality-3'', q_width = 1280, q_height = 720, q_bitrate = 1500,
       q_codec = ''hvc1,mp4a'', q_index = 1 \<rparr>"

definition ex_controller_selected :: ShakaController where
  "ex_controller_selected = ex_controller\<lparr>ctx_qualities_selected := Some ex_quality_720\<rparr>"

definition ex_quality_480 :: VideoQuality where
  "ex_quality_480 =
     \<lparr> q_id = ''shaka-quality-9'', q_width = 854, q_height = 480, q_bitrate = 700,
       q_codec = ''avc1'', q_index = 2 \<rparr>"

definition ex_controller_selected_480 :: ShakaController where
  "ex_controller_selected_480 = ex_controller\<lparr>ctx_qualities_selected := Some ex_quality_480\<rparr>"


definition ex_src :: Src where
  "ex_src = \<lparr> src_src = Some ''bad.mpd'', src_type = None \<rparr>"

definition is_filter_registration :: "call \<Rightarrow> bool" where
  "is_filter_registration x =
     (case x of
        RegisterRequestFilter e f \<Rightarrow> True
      | RegisterResponseFilter e f \<Rightarrow> True
      | _ \<Rightarrow> False)"

definition filter_registrations :: "call list \<Rightarrow> call list" where
  "filter_registrations calls = filter is_filter_registration calls"


text \<open>The handlers that a call sequence attached to the \<open>change\<close> event of a host list.\<close>

definition change_listeners :: "call list \<Rightarrow> list_target \<Rightarrow> handler list" where
  "change_listeners calls target =
     List.map_filter
       (\<lambda>x. case x of
              ListenEvent tg type h \<Rightarrow> if tg = target \<and> type = ''change'' then Some h else None
            | _ \<Rightarrow> None)
       calls"

section \<open>The shape of a loader run\<close>

text \<open>
  What a run of the library loader on the provider \<open>p\<close> leaves: either no call beyond the
  library load has a stage, or the calls of the loader callback stand between calls of the
  library load and calls without a stage, and the provider holds the constructor.
\<close>

definition run_shape :: "Env \<Rightarrow> ShakaProvider \<Rightarrow> call list \<Rightarrow> ShakaProvider \<Rightarrow> bool" where
  "run_shape env p calls p' \<longleftrightarrow>
     set (lifecycle_stages calls) \<subseteq> {0} \<or>
     (\<exists>pre post ct.
        calls = pre @ snd (provider_onCtor env ct p) @ post \<and>
        set (lifecycle_stages pre) \<subseteq> {0} \<and> lifecycle_stages post = [] \<and>
        ctor p' = Some ct)"

section \<open>Decimal rendering is injective\<close>

lemma digit_char_inj: "a < 10 \<Longrightarrow> b < 10 \<Longrightarrow> digit_char a = digit_char b \<Longrightarrow> a = b"
proof -
  assume a: "a < 10" and b: "b < 10" and e: "digit_char a = digit_char b"
  have d: "distinct ''0123456789''" by simp
  have "length ''0123456789'' = 10" by simp
  with a b e d show ?thesis unfolding digit_char_def
    by (metis nth_eq_iff_index_eq)
qed

lemma show_nat_nonempty: "show_nat n \<noteq> []"
  by (subst show_nat.simps) simp

lemma show_nat_inj: "show_nat n = show_nat m \<Longrightarrow> n = m"
proof (induction n arbitrary: m rule: show_nat.induct)
  case (1 n)
  show ?case
  proof (cases "n < 10")
    case True
    then have n1: "show_nat n = [digit_char n]" by (subst show_nat.simps) simp
    show ?thesis
    proof (cases "m < 10")
      case mT: True
      then have "show_nat m = [digit_char m]" by (subst show_nat.simps) simp
      with n1 "1.prems" True mT show ?thesis by (simp add: digit_char_inj)
    next
      case mF: False
      then have "show_nat m = show_nat (m div 10) @ [digit_char (m mod 10)]"
        by (subst show_nat.simps) simp
      with n1 "1.prems" show_nat_nonempty[of "m div 10"] show ?thesis
        by (cases "show_nat (m div 10)") auto
    qed
  next
    case False
    then have n2: "show_nat n = show_nat (n div 10) @ [digit_char (n mod 10)]"
      by (subst show_nat.simps) simp
    show ?thesis
    proof (cases "m < 10")
      case mT: True
      then have "show_nat m = [digit_char m]" by (subst show_nat.simps) simp
      with n2 "1.prems" show_nat_nonempty[of "n div 10"] show ?thesis
        by (cases "show_nat (n div 10)") auto
    next
      case mF: False
      then have "show_nat m = show_nat (m div 10) @ [digit_char (m mod 10)]"
        by (subst show_nat.simps) simp
      with n2 "1.prems" have e1: "show_nat (n div 10) = show_nat (m div 10)"
        and e2: "digit_char (n mod 10) = digit_char (m mod 10)" by auto
      from "1.IH"[OF False e1] have d: "n div 10 = m div 10" .
      from e2 have "n mod 10 = m mod 10" by (intro digit_char_inj) auto
      with d show ?thesis by (metis div_mult_mod_eq)
    qed
  qed
qed

lemma digit_char_not_minus: "d < 10 \<Longrightarrow> digit_char d \<noteq> CHR ''-''"
proof -
  assume "d < 10"
  then have "d \<in> {0,1,2,3,4,5,6,7,8,9}" by auto
  then show ?thesis unfolding digit_char_def by auto
qed

lemma show_nat_hd: "hd (show_nat n) \<noteq> CHR ''-''"
proof (induction n rule: show_nat.induct)
  case (1 n)
  show ?case
  proof (cases "n < 10")
    case True
    then show ?thesis by (subst show_nat.simps) (simp add: digit_char_not_minus)
  next
    case False
    with 1 show_nat_nonempty[of "n div 10"] show ?thesis by (subst show_nat.simps) simp
  qed
qed

lemma show_int_inj: "show_int i = show_int j \<Longrightarrow> i = j"
proof -
  assume e: "show_int i = show_int j"
  have ne: "\<And>n m. CHR ''-'' # show_nat n \<noteq> show_nat m"
    using show_nat_hd by (metis list.sel(1))
  show ?thesis
  proof (cases "i < 0")
    case True
    show ?thesis
    proof (cases "j < 0")
      case jT: True
      with True e have "show_nat (nat (- i)) = show_nat (nat (- j))" by (simp add: show_int_def)
      then have "nat (- i) = nat (- j)" by (rule show_nat_inj)
      with True jT show ?thesis by simp
    next
      case jF: False
      with True e ne show ?thesis by (simp add: show_int_def)
    qed
  next
    case False
    show ?thesis
    proof (cases "j < 0")
      case jT: True
      with False e ne[of "nat (- j)" "nat i"] show ?thesis by (simp add: show_int_def)
    next
      case jF: False
      with False e have "show_nat (nat i) = show_nat (nat j)" by (simp add: show_int_def)
      then have "nat i = nat j" by (rule show_nat_inj)
      with False jF show ?thesis by simp
    qed
  qed
qed

section \<open>Grouping by resolution\<close>

lemma has_resolution_height: "has_resolution t \<Longrightarrow> vt_height t = Some (num_or (vt_height t) 0)"
  by (auto simp: has_resolution_def truthy_num_def num_or_def split: option.splits)

lemma height_key_eq_iff:
  "has_resolution a \<Longrightarrow> has_resolution b \<Longrightarrow> height_key a = height_key b \<longleftrightarrow> vt_height a = vt_height b"
  using has_resolution_height[of a] has_resolution_height[of b]
  by (auto simp: height_key_def dest: show_int_inj)

lemma uq_inv_skip:
  assumes "uq_inv seen uq" "\<not> has_resolution x"
  shows "uq_inv (seen @ [x]) (group_track x uq)"
  using assms by (auto simp: uq_inv_def group_track_def best_of_def)

lemma uq_inv_new:
  assumes inv: "uq_inv seen uq" and hr: "has_resolution x"
    and none: "map_of uq (height_key x) = None"
  shows "uq_inv (seen @ [x]) (AList.update (height_key x) x uq)"
  unfolding uq_inv_def
proof (intro conjI allI impI ballI)
  show "distinct (map fst (AList.update (height_key x) x uq))"
    using inv by (simp add: uq_inv_def distinct_update)
next
  fix k t assume m: "map_of (AList.update (height_key x) x uq) k = Some t"
  show "k = height_key t"
    using m inv by (auto simp: update_conv' uq_inv_def split: if_splits)
  show "best_of (seen @ [x]) t"
  proof (cases "k = height_key x")
    case True
    with m have tx: "t = x" by (simp add: update_conv')
    have "\<And>t'. t' \<in> set seen \<Longrightarrow> has_resolution t' \<Longrightarrow> vt_height t' = vt_height x \<Longrightarrow> False"
    proof -
      fix t' assume a: "t' \<in> set seen" "has_resolution t'" "vt_height t' = vt_height x"
      then have "height_key t' = height_key x" using hr by (simp add: height_key_eq_iff)
      with a inv none show False by (auto simp: uq_inv_def)
    qed
    with tx hr show ?thesis by (auto simp: best_of_def)
  next
    case False
    with m have old: "map_of uq k = Some t" by (simp add: update_conv')
    with inv have kt: "k = height_key t" and b: "best_of seen t" by (auto simp: uq_inv_def)
    from b have ht: "has_resolution t" by (simp add: best_of_def)
    from False kt have "height_key x \<noteq> height_key t" by simp
    with hr ht have "vt_height x \<noteq> vt_height t" by (simp add: height_key_eq_iff)
    with b show ?thesis by (auto simp: best_of_def)
  qed
next
  fix t assume "t \<in> set (seen @ [x])" "has_resolution t"
  then show "map_of (AList.update (height_key x) x uq) (height_key t) \<noteq> None"
    using inv by (auto simp: update_conv' uq_inv_def)
qed

lemma uq_inv_replace:
  assumes inv: "uq_inv seen uq" and hr: "has_resolution x"
    and old: "map_of uq (height_key x) = Some old" and gt: "vt_bandwidth x > vt_bandwidth old"
  shows "uq_inv (seen @ [x]) (AList.update (height_key x) x uq)"
  unfolding uq_inv_def
proof (intro conjI allI impI ballI)
  show "distinct (map fst (AList.update (height_key x) x uq))"
    using inv by (simp add: uq_inv_def distinct_update)
next
  from inv old have ko: "height_key x = height_key old" and bo: "best_of seen old"
    by (auto simp: uq_inv_def)
  from bo have ho: "has_resolution old" by (simp add: best_of_def)
  from ko hr ho have hxo: "vt_height x = vt_height old" by (simp add: height_key_eq_iff)
  fix k t assume m: "map_of (AList.update (height_key x) x uq) k = Some t"
  show "k = height_key t"
    using m inv by (auto simp: update_conv' uq_inv_def split: if_splits)
  show "best_of (seen @ [x]) t"
  proof (cases "k = height_key x")
    case True
    with m have tx: "t = x" by (simp add: update_conv')
    have "\<And>t'. t' \<in> set seen \<Longrightarrow> has_resolution t' \<Longrightarrow> vt_height t' = vt_height x
        \<Longrightarrow> vt_bandwidth t' \<le> vt_bandwidth x"
    proof -
      fix t' assume a: "t' \<in> set seen" "has_resolution t'" "vt_height t' = vt_height x"
      with bo hxo have "vt_bandwidth t' \<le> vt_bandwidth old" by (auto simp: best_of_def)
      with gt show "vt_bandwidth t' \<le> vt_bandwidth x" by simp
    qed
    with tx hr show ?thesis by (auto simp: best_of_def)
  next
    case False
    with m have o: "map_of uq k = Some t" by (simp add: update_conv')
    with inv have kt: "k = height_key t" and b: "best_of seen t" by (auto simp: uq_inv_def)
    from b have ht: "has_resolution t" by (simp add: best_of_def)
    from False kt have "height_key x \<noteq> height_key t" by simp
    with hr ht have "vt_height x \<noteq> vt_height t" by (simp add: height_key_eq_iff)
    with b show ?thesis by (auto simp: best_of_def)
  qed
next
  fix t assume "t \<in> set (seen @ [x])" "has_resolution t"
  then show "map_of (AList.update (height_key x) x uq) (height_key t) \<noteq> None"
    using inv by (auto simp: update_conv' uq_inv_def)
qed

lemma uq_inv_keep:
  assumes inv: "uq_inv seen uq" and hr: "has_resolution x"
    and old: "map_of uq (height_key x) = Some old" and le: "\<not> vt_bandwidth x > vt_bandwidth old"
  shows "uq_inv (seen @ [x]) uq"
  unfolding uq_inv_def
proof (intro conjI allI impI ballI)
  show "distinct (map fst uq)" using inv by (simp add: uq_inv_def)
next
  from inv old have ko: "height_key x = height_key old" and bo: "best_of seen old"
    by (auto simp: uq_inv_def)
  fix k t assume m: "map_of uq k = Some t"
  with inv show kt: "k = height_key t" by (auto simp: uq_inv_def)
  from m inv have b: "best_of seen t" by (auto simp: uq_inv_def)
  from b have ht: "has_resolution t" by (simp add: best_of_def)
  show "best_of (seen @ [x]) t"
  proof (cases "vt_height x = vt_height t")
    case True
    with hr ht have "height_key x = height_key t" by (simp add: height_key_eq_iff)
    with kt m old have "t = old" by simp
    with le b show ?thesis by (auto simp: best_of_def)
  next
    case False
    with b show ?thesis by (auto simp: best_of_def)
  qed
next
  fix t assume "t \<in> set (seen @ [x])" "has_resolution t"
  then show "map_of uq (height_key t) \<noteq> None"
    using inv old by (auto simp: uq_inv_def)
qed

lemma uq_inv_step: "uq_inv seen uq \<Longrightarrow> uq_inv (seen @ [x]) (group_track x uq)"
proof (cases "has_resolution x")
  case False
  assume "uq_inv seen uq"
  with False show ?thesis by (rule uq_inv_skip[rotated])
next
  case True
  assume inv: "uq_inv seen uq"
  show ?thesis
  proof (cases "map_of uq (height_key x)")
    case None
    with uq_inv_new[OF inv True None] True show ?thesis
      by (simp add: group_track_def height_key_def)
  next
    case (Some old)
    show ?thesis
    proof (cases "vt_bandwidth x > vt_bandwidth old")
      case gt: True
      with uq_inv_replace[OF inv True Some gt] True Some show ?thesis
        by (simp add: group_track_def height_key_def)
    next
      case le: False
      with uq_inv_keep[OF inv True Some le] True Some show ?thesis
        by (simp add: group_track_def height_key_def)
    qed
  qed
qed

lemma uq_inv_fold: "uq_inv seen uq \<Longrightarrow> uq_inv (seen @ xs) (fold group_track xs uq)"
proof (induction xs arbitrary: seen uq)
  case Nil
  then show ?case by simp
next
  case (Cons x xs)
  from Cons.IH[OF uq_inv_step[OF Cons.prems, of x]] show ?case by simp
qed

lemma uq_inv_uniqueQualities: "uq_inv tracks (uniqueQualities tracks)"
proof -
  have "uq_inv [] []" by (simp add: uq_inv_def)
  from uq_inv_fold[OF this, of tracks] show ?thesis by (simp add: uniqueQualities_def)
qed

section \<open>Sorting by height\<close>

lemma set_insert_cmp: "set (insert_cmp cmp x xs) = insert x (set xs)"
  by (induction xs) auto

lemma set_js_sort: "set (js_sort cmp xs) = set xs"
  by (induction xs) (auto simp: js_sort_def set_insert_cmp)

lemma length_insert_cmp: "length (insert_cmp cmp x xs) = Suc (length xs)"
  by (induction xs) auto

lemma length_js_sort: "length (js_sort cmp xs) = length xs"
  by (induction xs) (auto simp: js_sort_def length_insert_cmp)

lemma distinct_insert_cmp: "distinct (map f (insert_cmp cmp x xs)) \<longleftrightarrow> distinct (map f (x # xs))"
  by (induction xs) (auto simp: set_insert_cmp)

lemma distinct_js_sort: "distinct (map f (js_sort cmp xs)) \<longleftrightarrow> distinct (map f xs)"
proof (induction xs)
  case Nil
  then show ?case by (simp add: js_sort_def)
next
  case (Cons x xs)
  have "js_sort cmp (x # xs) = insert_cmp cmp x (js_sort cmp xs)" by (simp add: js_sort_def)
  with Cons show ?case by (simp add: distinct_insert_cmp set_js_sort)
qed

lemma sorted_insert_by_height:
  "sorted_wrt (\<lambda>a b. height_of a \<ge> height_of b) xs
   \<Longrightarrow> sorted_wrt (\<lambda>a b. height_of a \<ge> height_of b) (insert_cmp by_height_desc x xs)"
proof (induction xs)
  case Nil
  then show ?case by simp
next
  case (Cons y ys)
  show ?case
  proof (cases "by_height_desc x y \<le> 0")
    case True
    then have "height_of y \<le> height_of x" by (simp add: by_height_desc_def height_of_def)
    with Cons.prems True show ?thesis by (auto simp: order_trans)
  next
    case False
    then have "height_of x \<le> height_of y" by (simp add: by_height_desc_def height_of_def)
    with Cons False show ?thesis by (auto simp: set_insert_cmp)
  qed
qed

lemma sorted_js_sort_by_height:
  "sorted_wrt (\<lambda>a b. height_of a \<ge> height_of b) (js_sort by_height_desc xs)"
proof (induction xs)
  case Nil
  then show ?case by (simp add: js_sort_def)
next
  case (Cons x xs)
  have "js_sort by_height_desc (x # xs) = insert_cmp by_height_desc x (js_sort by_height_desc xs)"
    by (simp add: js_sort_def)
  with Cons show ?case by (simp add: sorted_insert_by_height)
qed

lemma sorted_wrt_strict:
  "sorted_wrt (\<lambda>a b. f a \<ge> (f b :: int)) xs \<Longrightarrow> distinct (map f xs)
   \<Longrightarrow> sorted_wrt (\<lambda>a b. f a > f b) xs"
  by (induction xs) (auto simp: order_less_le image_iff)

section \<open>The sorted, deduplicated tracks\<close>

lemma uq_values_iff:
  assumes "uq_inv tracks uq"
  shows "t \<in> snd ` set uq \<longleftrightarrow> map_of uq (height_key t) = Some t"
proof
  assume "t \<in> snd ` set uq"
  then obtain k where "(k, t) \<in> set uq" by auto
  with assms have m: "map_of uq k = Some t" by (simp add: uq_inv_def)
  with assms have "k = height_key t" by (auto simp: uq_inv_def)
  with m show "map_of uq (height_key t) = Some t" by simp
next
  assume "map_of uq (height_key t) = Some t"
  then have "(height_key t, t) \<in> set uq" by (rule map_of_SomeD)
  then show "t \<in> snd ` set uq" by force
qed

lemma uq_values_distinct_heights:
  assumes "uq_inv tracks uq"
  shows "distinct (map height_of (map snd uq))"
proof -
  have eq: "map fst uq = map show_int (map height_of (map snd uq))"
  proof (rule nth_equalityI)
    show "length (map fst uq) = length (map show_int (map height_of (map snd uq)))" by simp
  next
    fix i assume "i < length (map fst uq)"
    then have i: "i < length uq" by simp
    then have "(fst (uq ! i), snd (uq ! i)) \<in> set uq" by simp
    with assms have "map_of uq (fst (uq ! i)) = Some (snd (uq ! i))" by (simp add: uq_inv_def)
    with assms have "fst (uq ! i) = height_key (snd (uq ! i))" by (auto simp: uq_inv_def)
    with i show "map fst uq ! i = map show_int (map height_of (map snd uq)) ! i"
      by (simp add: height_key_def height_of_def)
  qed
  from assms have "distinct (map fst uq)" by (simp add: uq_inv_def)
  then have "distinct (map show_int (map height_of (map snd uq)))" by (simp only: eq)
  then show ?thesis using distinct_map[of show_int "map height_of (map snd uq)"] by blast
qed

lemma sortedQualities_strict:
  "sorted_wrt (\<lambda>a b. height_of a > height_of b) (sortedQualities tracks)"
proof -
  have "distinct (map height_of (map snd (uniqueQualities tracks)))"
    using uq_values_distinct_heights[OF uq_inv_uniqueQualities] .
  then have "distinct (map height_of (sortedQualities tracks))"
    by (simp add: sortedQualities_def distinct_js_sort)
  moreover have "sorted_wrt (\<lambda>a b. height_of a \<ge> height_of b) (sortedQualities tracks)"
    by (simp add: sortedQualities_def sorted_js_sort_by_height)
  ultimately show ?thesis by (rule sorted_wrt_strict[rotated])
qed

lemma sortedQualities_best: "t \<in> set (sortedQualities tracks) \<Longrightarrow> best_of tracks t"
proof -
  assume "t \<in> set (sortedQualities tracks)"
  then have "t \<in> snd ` set (uniqueQualities tracks)"
    by (simp add: sortedQualities_def set_js_sort)
  then have "map_of (uniqueQualities tracks) (height_key t) = Some t"
    by (simp add: uq_values_iff[OF uq_inv_uniqueQualities])
  with uq_inv_uniqueQualities[of tracks] show ?thesis by (auto simp: uq_inv_def)
qed

lemma sortedQualities_covers:
  assumes "t \<in> set tracks" "has_resolution t"
  shows "\<exists>s\<in>set (sortedQualities tracks). vt_height s = vt_height t"
proof -
  from assms uq_inv_uniqueQualities[of tracks]
  obtain s where m: "map_of (uniqueQualities tracks) (height_key t) = Some s"
    by (auto simp: uq_inv_def)
  with uq_inv_uniqueQualities[of tracks] have k: "height_key t = height_key s" and b: "best_of tracks s"
    by (auto simp: uq_inv_def)
  from b have "has_resolution s" by (simp add: best_of_def)
  with k assms have h: "vt_height s = vt_height t" by (simp add: height_key_eq_iff)
  from m k have "map_of (uniqueQualities tracks) (height_key s) = Some s" by simp
  then have "s \<in> snd ` set (uniqueQualities tracks)"
    by (simp add: uq_values_iff[OF uq_inv_uniqueQualities])
  then have "s \<in> set (sortedQualities tracks)" by (simp add: sortedQualities_def set_js_sort)
  with h show ?thesis by blast
qed

section \<open>Reading the calls of the track updates\<close>

lemma map_filter_append:
  "List.map_filter f (xs @ ys) = List.map_filter f xs @ List.map_filter f ys"
  by (simp add: List.map_filter_def)

lemma map_filter_map_Some:
  "(\<And>x. f (g x) = Some (h x)) \<Longrightarrow> List.map_filter f (map g xs) = map h xs"
  by (induction xs) (simp_all add: map_filter_simps)

lemma map_filter_all_None:
  "(\<And>x. x \<in> set xs \<Longrightarrow> f x = None) \<Longrightarrow> List.map_filter f xs = []"
  by (induction xs) (simp_all add: map_filter_simps)

lemma added_qualities_update:
  assumes "shaka_instance c = Some inst"
  shows "added_qualities (snd (updateQualityTracks trigger c)) =
         map (\<lambda>(i, track). toQuality i track) (enumerate 0 (sortedQualities (getVariantTracks inst)))"
proof -
  let ?qs = "map (\<lambda>(i, track). toQuality i track) (enumerate 0 (sortedQualities (getVariantTracks inst)))"
  let ?f = "\<lambda>x. case x of QualitiesAdd q t \<Rightarrow> Some q | _ \<Rightarrow> None"
  have a: "List.map_filter ?f (map (\<lambda>quality. QualitiesAdd quality trigger) ?qs) = ?qs"
    by (subst map_filter_map_Some[where h = "\<lambda>q. q"]) simp_all
  show ?thesis
    using assms a
    by (auto simp: updateQualityTracks_def added_qualities_def Let_def map_filter_append
        map_filter_simps split: option.splits)
qed

lemma added_audio_update:
  assumes "shaka_instance c = Some inst"
  shows "added_audio (snd (updateAudioTracks env trigger c)) =
         map (\<lambda>(index, langRole). toAudioTrack env index langRole)
           (enumerate 0 (getAudioLanguagesAndRoles inst))"
proof -
  have "\<And>xs. List.map_filter (\<lambda>x. case x of AudioTracksAdd a t \<Rightarrow> Some a | _ \<Rightarrow> None)
          (map (\<lambda>(index, langRole). AudioTracksAdd (toAudioTrack env index langRole) trigger) xs)
        = map (\<lambda>(index, langRole). toAudioTrack env index langRole) xs"
    by (rule map_filter_map_Some) (simp add: case_prod_unfold)
  with assms show ?thesis by (simp add: updateAudioTracks_def added_audio_def)
qed

lemma added_text_update:
  assumes "shaka_instance c = Some inst"
  shows "added_text (snd (updateTextTracks env trigger c)) = map (toTextTrack env) (getTextTracks inst)"
proof -
  have "\<And>xs. List.map_filter (\<lambda>x. case x of TextTracksAdd a r t \<Rightarrow> Some a | _ \<Rightarrow> None)
          (map (\<lambda>shakaTrack. TextTracksAdd (toTextTrack env shakaTrack) 2 trigger) xs)
        = map (toTextTrack env) xs"
    by (rule map_filter_map_Some) simp
  with assms show ?thesis by (simp add: updateTextTracks_def added_text_def)
qed

lemma nth_indexed_quality:
  "i < length xs \<Longrightarrow> map (\<lambda>(i, track). toQuality i track) (enumerate 0 xs) ! i = toQuality i (xs ! i)"
  by (simp add: nth_enumerate_eq)

lemma q_height_toQuality: "q_height (toQuality i t) = height_of t"
  by (simp add: toQuality_def height_of_def)

lemma q_bitrate_toQuality: "q_bitrate (toQuality i t) = vt_bandwidth t"
  by (simp add: toQuality_def num_or_def)

lemma has_resolution_width: "has_resolution t \<Longrightarrow> vt_width t = Some (num_or (vt_width t) 0)"
  by (auto simp: has_resolution_def truthy_num_def num_or_def split: option.splits)

section \<open>Filter registrations in a call sequence\<close>

lemma filter_registrations_append:
  "filter_registrations (xs @ ys) = filter_registrations xs @ filter_registrations ys"
  by (simp add: filter_registrations_def)

lemma filter_registrations_Cons:
  "filter_registrations (x # xs) =
     (if is_filter_registration x then x # filter_registrations xs else filter_registrations xs)"
  by (simp add: filter_registrations_def)

lemma filter_registrations_Nil: "filter_registrations [] = []"
  by (simp add: filter_registrations_def)

lemma filter_registrations_none:
  "(\<And>x. x \<in> set xs \<Longrightarrow> \<not> is_filter_registration x) \<Longrightarrow> filter_registrations xs = []"
  by (simp add: filter_registrations_def filter_empty_conv)

lemma filter_registrations_setup:
  "filter_registrations (snd (controller_setup env ct c)) = config_filters ct c"
proof -
  have a: "\<And>r cbs. filter_registrations (map (\<lambda>callback. Callback callback r) cbs) = []"
    by (rule filter_registrations_none) (auto simp: is_filter_registration_def)
  have b: "filter_registrations (map (\<lambda>event. AddEventListener event H_dispatchShakaEvent) shaka_events) = []"
    by (rule filter_registrations_none) (auto simp: is_filter_registration_def)
  show ?thesis
    unfolding controller_setup_def Let_def snd_conv filter_registrations_append a b config_filters_def
    by (simp add: filter_registrations_def is_filter_registration_def split: option.splits)
qed

lemma filter_registrations_loadSource_start:
  "filter_registrations (provider_loadSource_start src preload p) = []"
  by (rule filter_registrations_none)
     (auto simp: provider_loadSource_start_def loadSource_start_def
       is_filter_registration_def split: option.splits)

lemma filter_registrations_onCtor:
  "filter_registrations (snd (provider_onCtor env ct p)) = config_filters ct (controller p)"
proof -
  have "filter_registrations (snd (provider_onCtor env ct p))
        = filter_registrations (snd (controller_setup env ct (controller p)))"
    by (simp add: provider_onCtor_def Let_def case_prod_unfold filter_registrations_append
        filter_registrations_loadSource_start filter_registrations_Cons filter_registrations_Nil
        is_filter_registration_def split: option.splits)
  then show ?thesis by (simp only: filter_registrations_setup)
qed

lemma callbacks_in_setup:
  "Callback cb r \<in> set (snd (controller_setup env ct c))
   \<longleftrightarrow> cb \<in> set (callbacks c) \<and> r = player_ref (ct (video c))"
  by (auto simp: controller_setup_def Let_def shaka_events_def split: option.splits)

lemma onCtor_calls:
  "snd (provider_onCtor env ct p)
   = snd (controller_setup env ct (controller p))
     @ [Notify ''provider-setup'' ProviderSetup None]
     @ (case ctx_source (fst (controller_setup env ct (controller p))) of
          None \<Rightarrow> []
        | Some src \<Rightarrow>
            provider_loadSource_start src None
              (p\<lparr>ctor := Some ct, controller := fst (controller_setup env ct (controller p))\<rparr>))"
  by (simp add: provider_onCtor_def Let_def case_prod_unfold cong: option.case_cong)

lemma onCtor_contains_setup:
  "set (snd (controller_setup env ct (controller p))) \<subseteq> set (snd (provider_onCtor env ct p))"
  by (simp only: onCtor_calls set_append) blast

text \<open>The awaited functions are their two parts, one after the other.\<close>

lemma loadSource_split:
  "snd (loadSource env src c) = loadSource_start src c @ loadSource_settle env src c"
  by (simp add: loadSource_def loadSource_start_def loadSource_settle_def Let_def
      split: option.splits)

lemma provider_loadSource_split:
  "snd (provider_loadSource env src preload p)
   = provider_loadSource_start src preload p @ provider_loadSource_settle env src p"
proof (cases "src_src src")
  case None
  then show ?thesis
    by (simp add: provider_loadSource_def provider_loadSource_start_def
        provider_loadSource_settle_def)
next
  case (Some url)
  have "snd (provider_loadSource env src preload p)
        = [SetPreload (str_or preload ''''),
           AppendSource src (str_or (src_type src) ''application/dash+xml'')]
          @ snd (loadSource env src (controller p)) @ [SetCurrentSrc src]"
    using Some by (simp add: provider_loadSource_def Let_def case_prod_unfold)
  with Some show ?thesis
    by (simp only: loadSource_split)
       (simp add: provider_loadSource_start_def provider_loadSource_settle_def)
qed

section \<open>Quality list projection\<close>

text \<open>
  C1. For every list of variant tracks that the instance returns, the qualities that
  \<open>#updateQualityTracks\<close> adds carry their position as index, come in strictly descending
  height (so no height occurs twice), each stem from a track that has both a height and a
  width and whose bandwidth no other such track of the same height exceeds, and every
  height of a track with a height and a width is represented.
\<close>

theorem updateQualityTracks_projection:
  assumes "shaka_instance c = Some inst"
  shows "let qs = added_qualities (snd (updateQualityTracks trigger c));
             tracks = getVariantTracks inst
         in (\<forall>i<length qs. q_index (qs ! i) = i) \<and>
            sorted_wrt (\<lambda>a b. q_height a > q_height b) qs \<and>
            (\<forall>q\<in>set qs. \<exists>t\<in>set tracks.
                has_resolution t \<and> vt_height t = Some (q_height q) \<and>
                q_id q = ''shaka-quality-'' @ show_int (vt_id t) \<and>
                q_bitrate q = vt_bandwidth t \<and>
                (\<forall>t'\<in>set tracks. has_resolution t' \<and> vt_height t' = vt_height t
                    \<longrightarrow> vt_bandwidth t' \<le> vt_bandwidth t)) \<and>
            (\<forall>t\<in>set tracks. has_resolution t \<longrightarrow> (\<exists>q\<in>set qs. vt_height t = Some (q_height q)))"
proof -
  let ?tracks = "getVariantTracks inst"
  let ?sel = "sortedQualities ?tracks"
  let ?qs = "map (\<lambda>(i, track). toQuality i track) (enumerate 0 ?sel)"
  have len: "length ?qs = length ?sel" by simp
  have nth: "\<And>i. i < length ?sel \<Longrightarrow> ?qs ! i = toQuality i (?sel ! i)"
    by (rule nth_indexed_quality)
  have p1: "\<forall>i<length ?qs. q_index (?qs ! i) = i"
  proof (intro allI impI)
    fix i assume "i < length ?qs"
    then have "i < length ?sel" by simp
    then show "q_index (?qs ! i) = i" by (simp only: nth) (simp add: toQuality_def)
  qed
  have p2: "sorted_wrt (\<lambda>a b. q_height a > q_height b) ?qs"
    unfolding sorted_wrt_iff_nth_less
  proof (intro allI impI)
    fix i j assume ij: "i < j" and j: "j < length ?qs"
    then have js: "j < length ?sel" and isl: "i < length ?sel" by simp_all
    from sortedQualities_strict[of ?tracks] ij js
    have "height_of (?sel ! i) > height_of (?sel ! j)"
      by (simp add: sorted_wrt_iff_nth_less)
    then show "q_height (?qs ! j) < q_height (?qs ! i)"
      by (simp only: nth[OF isl] nth[OF js] q_height_toQuality)
  qed
  have p3: "\<forall>q\<in>set ?qs. \<exists>t\<in>set ?tracks.
                has_resolution t \<and> vt_height t = Some (q_height q) \<and>
                q_id q = ''shaka-quality-'' @ show_int (vt_id t) \<and>
                q_bitrate q = vt_bandwidth t \<and>
                (\<forall>t'\<in>set ?tracks. has_resolution t' \<and> vt_height t' = vt_height t
                    \<longrightarrow> vt_bandwidth t' \<le> vt_bandwidth t)"
  proof
    fix q assume "q \<in> set ?qs"
    then obtain i where i: "i < length ?qs" and q: "q = ?qs ! i" by (metis in_set_conv_nth)
    from i have isl: "i < length ?sel" by simp
    let ?t = "?sel ! i"
    from isl have "?t \<in> set ?sel" by simp
    then have b: "best_of ?tracks ?t" by (rule sortedQualities_best)
    from q have qt: "q = toQuality i ?t" by (simp only: nth[OF isl])
    from b have hr: "has_resolution ?t" and mem: "?t \<in> set ?tracks" by (simp_all add: best_of_def)
    have "vt_height ?t = Some (q_height q)"
      using has_resolution_height[OF hr] by (simp add: qt q_height_toQuality height_of_def)
    moreover have "q_id q = ''shaka-quality-'' @ show_int (vt_id ?t)" by (simp add: qt toQuality_def)
    moreover have "q_bitrate q = vt_bandwidth ?t" by (simp add: qt q_bitrate_toQuality)
    moreover have "\<forall>t'\<in>set ?tracks. has_resolution t' \<and> vt_height t' = vt_height ?t
                    \<longrightarrow> vt_bandwidth t' \<le> vt_bandwidth ?t"
      using b by (simp add: best_of_def)
    ultimately show "\<exists>t\<in>set ?tracks.
                has_resolution t \<and> vt_height t = Some (q_height q) \<and>
                q_id q = ''shaka-quality-'' @ show_int (vt_id t) \<and>
                q_bitrate q = vt_bandwidth t \<and>
                (\<forall>t'\<in>set ?tracks. has_resolution t' \<and> vt_height t' = vt_height t
                    \<longrightarrow> vt_bandwidth t' \<le> vt_bandwidth t)"
      using hr mem by blast
  qed
  have p4: "\<forall>t\<in>set ?tracks. has_resolution t \<longrightarrow> (\<exists>q\<in>set ?qs. vt_height t = Some (q_height q))"
  proof (intro ballI impI)
    fix t assume t: "t \<in> set ?tracks" and hr: "has_resolution t"
    from sortedQualities_covers[OF t hr] obtain s where s: "s \<in> set ?sel"
      and h: "vt_height s = vt_height t" by blast
    from s obtain i where isl: "i < length ?sel" and si: "s = ?sel ! i" by (metis in_set_conv_nth)
    from sortedQualities_best[OF s] have "has_resolution s" by (simp add: best_of_def)
    from has_resolution_height[OF this] h have "vt_height t = Some (height_of s)"
      by (simp add: height_of_def)
    then have "vt_height t = Some (q_height (?qs ! i))"
      by (simp only: nth[OF isl] q_height_toQuality si)
    moreover from isl have "?qs ! i \<in> set ?qs" by (simp only: len[symmetric] nth_mem)
    ultimately show "\<exists>q\<in>set ?qs. vt_height t = Some (q_height q)" by blast
  qed
  from p1 p2 p3 p4 show ?thesis
    unfolding added_qualities_update[OF assms] Let_def by blast
qed

theorem updateQualityTracks_projection_witness:
  "shaka_instance ex_controller = Some ex_player \<and>
   map q_id (added_qualities (snd (updateQualityTracks ex_trigger ex_controller)))
     = [''shaka-quality-2'', ''shaka-quality-3''] \<and>
   map q_height (added_qualities (snd (updateQualityTracks ex_trigger ex_controller))) = [1080, 720] \<and>
   (let qs = added_qualities (snd (updateQualityTracks ex_trigger ex_controller));
        tracks = getVariantTracks ex_player
    in (\<forall>i<length qs. q_index (qs ! i) = i) \<and>
       sorted_wrt (\<lambda>a b. q_height a > q_height b) qs \<and>
       (\<forall>q\<in>set qs. \<exists>t\<in>set tracks.
           has_resolution t \<and> vt_height t = Some (q_height q) \<and>
           q_id q = ''shaka-quality-'' @ show_int (vt_id t) \<and>
           q_bitrate q = vt_bandwidth t \<and>
           (\<forall>t'\<in>set tracks. has_resolution t' \<and> vt_height t' = vt_height t
               \<longrightarrow> vt_bandwidth t' \<le> vt_bandwidth t)) \<and>
       (\<forall>t\<in>set tracks. has_resolution t \<longrightarrow> (\<exists>q\<in>set qs. vt_height t = Some (q_height q))))"
proof -
  have h: "shaka_instance ex_controller = Some ex_player"
    by (simp add: ex_controller_def)
  have ids: "map q_id (added_qualities (snd (updateQualityTracks ex_trigger ex_controller)))
     = [''shaka-quality-2'', ''shaka-quality-3'']"
    by code_simp
  have hs: "map q_height (added_qualities (snd (updateQualityTracks ex_trigger ex_controller))) = [1080, 720]"
    by code_simp
  from h ids hs updateQualityTracks_projection[OF h, of ex_trigger] show ?thesis by blast
qed

section \<open>Ids within a track list\<close>

lemma distinct_prefixed_ids:
  assumes "distinct (map f xs)" "inj g"
  shows "distinct (map (\<lambda>x. pre @ g (f x)) xs)"
proof -
  have "inj_on (\<lambda>y. pre @ g y) (set (map f xs))"
    using assms(2) by (auto simp: inj_on_def dest: injD)
  with assms(1) have "distinct (map (\<lambda>y. pre @ g y) (map f xs))" by (simp only: distinct_map)
  then show ?thesis by (simp add: comp_def)
qed

lemma distinct_map_sub:
  assumes "distinct (map f ys)" "distinct xs" "set xs \<subseteq> set ys"
  shows "distinct (map f xs)"
proof -
  from assms(1) have "inj_on f (set ys)" by (simp add: distinct_map)
  with assms(3) have "inj_on f (set xs)" by (auto intro: inj_on_subset)
  with assms(2) show ?thesis by (simp add: distinct_map)
qed

lemma sortedQualities_distinct: "distinct (sortedQualities tracks)"
proof -
  have "sorted_wrt (\<lambda>a b. a \<noteq> b) (sortedQualities tracks)"
    by (rule sorted_wrt_mono_rel[OF _ sortedQualities_strict]) auto
  then show ?thesis by (simp add: distinct_conv_nth sorted_wrt_iff_nth_less nat_neq_iff) metis
qed

lemma sortedQualities_subset: "set (sortedQualities tracks) \<subseteq> set tracks"
  using sortedQualities_best by (auto simp: best_of_def)

lemma quality_ids:
  "map q_id (map (\<lambda>(i, track). toQuality i track) (enumerate 0 xs))
   = map (\<lambda>t. ''shaka-quality-'' @ show_int (vt_id t)) xs"
  by (rule nth_equalityI) (simp_all add: nth_enumerate_eq toQuality_def)

lemma audio_ids:
  "map at_id (map (\<lambda>(index, langRole). toAudioTrack env index langRole) (enumerate 0 xs))
   = map (\<lambda>i. ''shaka-audio-'' @ show_nat i) [0..<length xs]"
  by (rule nth_equalityI) (simp_all add: nth_enumerate_eq toAudioTrack_def)

lemma text_ids:
  "map tx_id (map (toTextTrack env) xs) = map (\<lambda>t. ''shaka-text-'' @ show_int (tt_id t)) xs"
  by (simp add: toTextTrack_def)

text \<open>
  Within one call of an update function the ids are pairwise distinct: those of the
  qualities when the variant tracks have distinct ids, those of the audio tracks always,
  those of the text tracks when the Shaka text tracks have distinct ids.
\<close>

lemma single_update_ids_distinct:
  assumes "shaka_instance c = Some inst"
  shows "(distinct (map vt_id (getVariantTracks inst))
            \<longrightarrow> distinct (map q_id (added_qualities (snd (updateQualityTracks trigger c))))) \<and>
         distinct (map at_id (added_audio (snd (updateAudioTracks env trigger c)))) \<and>
         (distinct (map tt_id (getTextTracks inst))
            \<longrightarrow> distinct (map tx_id (added_text (snd (updateTextTracks env trigger c)))))"
proof (intro conjI impI)
  assume d: "distinct (map vt_id (getVariantTracks inst))"
  have "distinct (map vt_id (sortedQualities (getVariantTracks inst)))"
    by (rule distinct_map_sub[OF d sortedQualities_distinct sortedQualities_subset])
  then have "distinct (map (\<lambda>t. ''shaka-quality-'' @ show_int (vt_id t))
                         (sortedQualities (getVariantTracks inst)))"
    by (rule distinct_prefixed_ids) (auto simp: inj_on_def dest: show_int_inj)
  then show "distinct (map q_id (added_qualities (snd (updateQualityTracks trigger c))))"
    by (simp only: added_qualities_update[OF assms] quality_ids)
next
  have "distinct (map (\<lambda>i. i) [0..<length (getAudioLanguagesAndRoles inst)])" by simp
  then have "distinct (map (\<lambda>i. ''shaka-audio-'' @ show_nat i)
                         [0..<length (getAudioLanguagesAndRoles inst)])"
    by (rule distinct_prefixed_ids) (auto simp: inj_on_def dest: show_nat_inj)
  then show "distinct (map at_id (added_audio (snd (updateAudioTracks env trigger c))))"
    by (simp only: added_audio_update[OF assms] audio_ids)
next
  assume "distinct (map tt_id (getTextTracks inst))"
  then have "distinct (map (\<lambda>t. ''shaka-text-'' @ show_int (tt_id t)) (getTextTracks inst))"
    by (rule distinct_prefixed_ids) (auto simp: inj_on_def dest: show_int_inj)
  then show "distinct (map tx_id (added_text (snd (updateTextTracks env trigger c))))"
    by (simp only: added_text_update[OF assms] text_ids)
qed

text \<open>The state and the added qualities after \<open>#updateQualityTracks\<close> and after \<open>#onLoaded\<close>.\<close>

lemma updateQualityTracks_state:
  "shaka_instance c = Some inst \<Longrightarrow>
   fst (updateQualityTracks trigger c)
   = c\<lparr>ctx_qualities := ctx_qualities c
         @ map (\<lambda>(i, track). toQuality i track) (enumerate 0 (sortedQualities (getVariantTracks inst)))\<rparr>"
  by (simp add: updateQualityTracks_def Let_def)

lemma added_qualities_append:
  "added_qualities (xs @ ys) = added_qualities xs @ added_qualities ys"
  by (simp add: added_qualities_def map_filter_append)

lemma added_qualities_audio: "added_qualities (snd (updateAudioTracks env trigger c)) = []"
  unfolding added_qualities_def
  by (rule map_filter_all_None) (auto simp: updateAudioTracks_def split: option.splits)

lemma added_qualities_text: "added_qualities (snd (updateTextTracks env trigger c)) = []"
  unfolding added_qualities_def
  by (rule map_filter_all_None) (auto simp: updateTextTracks_def split: option.splits)

lemma onLoaded_state:
  "shaka_instance c = Some inst \<Longrightarrow> \<not> ctx_canPlay c \<Longrightarrow>
   fst (onLoaded env c) = fst (updateQualityTracks (createDOMEvent env ''loaded'' NullDetail) c)"
  by (simp add: onLoaded_def Let_def case_prod_unfold updateAudioTracks_def updateTextTracks_def
      split: option.splits)

lemma added_qualities_Cons:
  "added_qualities (x # xs)
   = (case x of QualitiesAdd q t \<Rightarrow> q # added_qualities xs | _ \<Rightarrow> added_qualities xs)"
  by (simp add: added_qualities_def List.map_filter_simps split: call.splits)

lemma added_qualities_Nil: "added_qualities [] = []"
  by (simp add: added_qualities_def)

lemma onLoaded_added_qualities:
  assumes "shaka_instance c = Some inst" "\<not> ctx_canPlay c"
  shows "added_qualities (snd (onLoaded env c))
         = added_qualities (snd (updateQualityTracks (createDOMEvent env ''loaded'' NullDetail) c))"
  using assms
  by (simp add: onLoaded_def Let_def case_prod_unfold added_qualities_append added_qualities_Cons
      added_qualities_Nil added_qualities_audio added_qualities_text split: option.splits)

text \<open>
  C4. The quality list does not keep its ids unique. When the instance reports
  \<open>trackschanged\<close> while the quality list of the host is empty, and then \<open>loaded\<close> before the
  player can play, \<open>#onTracksChanged\<close> and \<open>#onLoaded\<close> both run \<open>#updateQualityTracks\<close>:
  the qualities are added twice and the list holds the ids of the first batch followed by
  the same ids again, so that no id is unique in the list as soon as one variant track has
  a resolution, whatever the ids of the variant tracks are.
\<close>

theorem qualities_added_twice:
  assumes "shaka_instance c = Some inst" "\<not> ctx_canPlay c" "ctx_qualities c = []"
  shows "let (c1, calls1) = onTracksChanged env event c;
             (c2, calls2) = onLoaded env c1;
             ids = map (\<lambda>t. ''shaka-quality-'' @ show_int (vt_id t))
                     (sortedQualities (getVariantTracks inst))
         in map q_id (added_qualities (calls1 @ calls2)) = ids @ ids \<and>
            map q_id (ctx_qualities c2) = ids @ ids \<and>
            (ids \<noteq> [] \<longrightarrow> \<not> distinct (map q_id (ctx_qualities c2)))"
proof -
  let ?t1 = "createDOMEvent env ''trackschanged'' (EventDetail event)"
  let ?t2 = "createDOMEvent env ''loaded'' NullDetail"
  let ?qs = "map (\<lambda>(i, track). toQuality i track) (enumerate 0 (sortedQualities (getVariantTracks inst)))"
  let ?ids = "map (\<lambda>t. ''shaka-quality-'' @ show_int (vt_id t)) (sortedQualities (getVariantTracks inst))"
  let ?c1 = "fst (onTracksChanged env event c)"
  let ?c2 = "fst (onLoaded env ?c1)"
  have t: "onTracksChanged env event c = updateQualityTracks ?t1 c"
    using assms(3) by (simp add: onTracksChanged_def Let_def)
  have c1: "?c1 = c\<lparr>ctx_qualities := ?qs\<rparr>"
    using assms(3) by (simp add: t updateQualityTracks_state[OF assms(1)])
  have i1: "shaka_instance ?c1 = Some inst" and p1: "\<not> ctx_canPlay ?c1"
    using assms(1,2) by (simp_all add: c1)
  have c2: "?c2 = c\<lparr>ctx_qualities := ?qs @ ?qs\<rparr>"
    by (simp add: onLoaded_state[OF i1 p1] updateQualityTracks_state[OF i1]) (simp add: c1)
  have a1: "added_qualities (snd (onTracksChanged env event c)) = ?qs"
    by (simp add: t added_qualities_update[OF assms(1)])
  have a2: "added_qualities (snd (onLoaded env ?c1)) = ?qs"
    by (simp add: onLoaded_added_qualities[OF i1 p1] added_qualities_update[OF i1])
  have a: "map q_id (added_qualities (snd (onTracksChanged env event c) @ snd (onLoaded env ?c1)))
           = ?ids @ ?ids"
    by (simp only: added_qualities_append a1 a2 map_append quality_ids)
  have s: "map q_id (ctx_qualities ?c2) = ?ids @ ?ids"
    by (simp add: c2 quality_ids del: map_map)
  have d: "?ids \<noteq> [] \<Longrightarrow> \<not> distinct (?ids @ ?ids)"
    by (cases ?ids) auto
  from a s d show ?thesis
    by (simp only: Let_def case_prod_unfold) blast
qed

theorem qualities_added_twice_witness:
  "shaka_instance ex_controller = Some ex_player \<and>
   \<not> ctx_canPlay ex_controller \<and>
   ctx_qualities ex_controller = [] \<and>
   distinct (map vt_id (getVariantTracks ex_player)) \<and>
   listeners_for (snd (controller_setup ex_env ex_ctor ex_fresh)) ''trackschanged''
     = [H_dispatchShakaEvent, H_onTracksChanged] \<and>
   listeners_for (snd (controller_setup ex_env ex_ctor ex_fresh)) ''loaded''
     = [H_dispatchShakaEvent, H_onLoaded] \<and>
   map q_id (ctx_qualities (fst (onLoaded ex_env (fst (onTracksChanged ex_env ex_event_trackschanged ex_controller)))))
     = [''shaka-quality-2'', ''shaka-quality-3'', ''shaka-quality-2'', ''shaka-quality-3''] \<and>
   map q_id (ctx_qualities
       (fst (receive ex_env (snd (controller_setup ex_env ex_ctor ex_fresh)) ex_event_loaded
          (fst (receive ex_env (snd (controller_setup ex_env ex_ctor ex_fresh)) ex_event_trackschanged
             ex_controller)))))
     = [''shaka-quality-2'', ''shaka-quality-3'', ''shaka-quality-2'', ''shaka-quality-3''] \<and>
   \<not> distinct (map q_id (ctx_qualities (fst (onLoaded ex_env (fst (onTracksChanged ex_env ex_event_trackschanged ex_controller))))))"
proof -
  have h1: "shaka_instance ex_controller = Some ex_player"
    by (simp add: ex_controller_def)
  have h2: "\<not> ctx_canPlay ex_controller" "ctx_qualities ex_controller = []"
    by (simp_all add: ex_controller_def ex_fresh_def)
  have v: "distinct (map vt_id (getVariantTracks ex_player))" by code_simp
  have l: "listeners_for (snd (controller_setup ex_env ex_ctor ex_fresh)) ''trackschanged''
             = [H_dispatchShakaEvent, H_onTracksChanged]"
    "listeners_for (snd (controller_setup ex_env ex_ctor ex_fresh)) ''loaded''
             = [H_dispatchShakaEvent, H_onLoaded]"
    by code_simp+
  have i: "map (\<lambda>t. ''shaka-quality-'' @ show_int (vt_id t)) (sortedQualities (getVariantTracks ex_player))
           = [''shaka-quality-2'', ''shaka-quality-3'']"
    by code_simp
  have r: "map q_id (ctx_qualities
       (fst (receive ex_env (snd (controller_setup ex_env ex_ctor ex_fresh)) ex_event_loaded
          (fst (receive ex_env (snd (controller_setup ex_env ex_ctor ex_fresh)) ex_event_trackschanged
             ex_controller)))))
     = [''shaka-quality-2'', ''shaka-quality-3'', ''shaka-quality-2'', ''shaka-quality-3'']"
    by code_simp
  note T = qualities_added_twice[OF h1 h2, of ex_env ex_event_trackschanged,
      unfolded Let_def case_prod_unfold i]
  from T have s: "map q_id (ctx_qualities (fst (onLoaded ex_env (fst (onTracksChanged ex_env ex_event_trackschanged ex_controller)))))
     = [''shaka-quality-2'', ''shaka-quality-3'', ''shaka-quality-2'', ''shaka-quality-3'']"
    by simp
  from T have n: "\<not> distinct (map q_id (ctx_qualities (fst (onLoaded ex_env (fst (onTracksChanged ex_env ex_event_trackschanged ex_controller))))))"
    by simp
  from h1 h2 v l s r n show ?thesis by (intro conjI)
qed

section \<open>Field pass-through\<close>

lemma str_or_unfold:
  "str_or x d = (if truthy_str x then the x else d)"
  by (simp add: str_or_def truthy_str_def split: option.splits)

lemma q_codec_toQuality:
  "q_codec (toQuality i t) =
     (if truthy_str (vt_videoCodec t) then the (vt_videoCodec t)
      else if truthy_str (vt_codecs t) then the (vt_codecs t) else '''')"
  by (simp add: toQuality_def str_or_unfold)

text \<open>
  C5, as the code has it. Width, height and bitrate of an added quality are those of its
  track; audio and text language are the source language; the text default flag is the
  source primary flag. The fall-backs apply when the source field is absent or falsy: the
  codec is the video codec when that is a non-empty string, else the codecs string when
  that is non-empty, else empty; the audio kind is the role when non-empty, else
  \<open>main\<close>; the text kind is the source kind when non-empty, else \<open>subtitles\<close>.
\<close>

theorem track_fields_pass_through:
  assumes "shaka_instance c = Some inst"
  shows "(let sel = sortedQualities (getVariantTracks inst);
              qs = added_qualities (snd (updateQualityTracks trigger c))
          in length qs = length sel \<and>
             (\<forall>i<length sel.
                vt_width (sel ! i) = Some (q_width (qs ! i)) \<and>
                vt_height (sel ! i) = Some (q_height (qs ! i)) \<and>
                q_bitrate (qs ! i) = vt_bandwidth (sel ! i) \<and>
                q_codec (qs ! i) =
                  (if truthy_str (vt_videoCodec (sel ! i)) then the (vt_videoCodec (sel ! i))
                   else if truthy_str (vt_codecs (sel ! i)) then the (vt_codecs (sel ! i))
                   else ''''))) \<and>
         (let lrs = getAudioLanguagesAndRoles inst;
              ats = added_audio (snd (updateAudioTracks env trigger c))
          in length ats = length lrs \<and>
             (\<forall>i<length lrs.
                at_language (ats ! i) = lr_language (lrs ! i) \<and>
                at_kind (ats ! i) = (if lr_role (lrs ! i) \<noteq> [] then lr_role (lrs ! i) else ''main''))) \<and>
         (let tts = getTextTracks inst;
              txs = added_text (snd (updateTextTracks env trigger c))
          in length txs = length tts \<and>
             (\<forall>i<length tts.
                tx_language (txs ! i) = tt_language (tts ! i) \<and>
                tx_kind (txs ! i) =
                  (if truthy_str (tt_kind (tts ! i)) then the (tt_kind (tts ! i)) else ''subtitles'') \<and>
                tx_default (txs ! i) = (tt_primary (tts ! i) = Some True)))"
proof (intro conjI)
  let ?sel = "sortedQualities (getVariantTracks inst)"
  let ?qs = "map (\<lambda>(i, track). toQuality i track) (enumerate 0 ?sel)"
  have "\<forall>i<length ?sel.
          vt_width (?sel ! i) = Some (q_width (?qs ! i)) \<and>
          vt_height (?sel ! i) = Some (q_height (?qs ! i)) \<and>
          q_bitrate (?qs ! i) = vt_bandwidth (?sel ! i) \<and>
          q_codec (?qs ! i) =
            (if truthy_str (vt_videoCodec (?sel ! i)) then the (vt_videoCodec (?sel ! i))
             else if truthy_str (vt_codecs (?sel ! i)) then the (vt_codecs (?sel ! i))
             else '''')"
  proof (intro allI impI)
    fix i assume i: "i < length ?sel"
    then have "?sel ! i \<in> set ?sel" by simp
    then have "best_of (getVariantTracks inst) (?sel ! i)" by (rule sortedQualities_best)
    then have hr: "has_resolution (?sel ! i)" by (simp add: best_of_def)
    have n: "?qs ! i = toQuality i (?sel ! i)" using i by (rule nth_indexed_quality)
    have "vt_width (?sel ! i) = Some (q_width (?qs ! i))"
      using has_resolution_width[OF hr] by (simp only: n) (simp add: toQuality_def)
    moreover have "vt_height (?sel ! i) = Some (q_height (?qs ! i))"
      using has_resolution_height[OF hr] by (simp only: n) (simp add: toQuality_def)
    moreover have "q_bitrate (?qs ! i) = vt_bandwidth (?sel ! i)"
      by (simp only: n q_bitrate_toQuality)
    moreover have "q_codec (?qs ! i) =
            (if truthy_str (vt_videoCodec (?sel ! i)) then the (vt_videoCodec (?sel ! i))
             else if truthy_str (vt_codecs (?sel ! i)) then the (vt_codecs (?sel ! i))
             else '''')"
      by (simp only: n q_codec_toQuality)
    ultimately show "vt_width (?sel ! i) = Some (q_width (?qs ! i)) \<and>
          vt_height (?sel ! i) = Some (q_height (?qs ! i)) \<and>
          q_bitrate (?qs ! i) = vt_bandwidth (?sel ! i) \<and>
          q_codec (?qs ! i) =
            (if truthy_str (vt_videoCodec (?sel ! i)) then the (vt_videoCodec (?sel ! i))
             else if truthy_str (vt_codecs (?sel ! i)) then the (vt_codecs (?sel ! i))
             else '''')"
      by blast
  qed
  moreover have "length ?qs = length ?sel" by simp
  ultimately show "let sel = sortedQualities (getVariantTracks inst);
              qs = added_qualities (snd (updateQualityTracks trigger c))
          in length qs = length sel \<and>
             (\<forall>i<length sel.
                vt_width (sel ! i) = Some (q_width (qs ! i)) \<and>
                vt_height (sel ! i) = Some (q_height (qs ! i)) \<and>
                q_bitrate (qs ! i) = vt_bandwidth (sel ! i) \<and>
                q_codec (qs ! i) =
                  (if truthy_str (vt_videoCodec (sel ! i)) then the (vt_videoCodec (sel ! i))
                   else if truthy_str (vt_codecs (sel ! i)) then the (vt_codecs (sel ! i))
                   else ''''))"
    unfolding added_qualities_update[OF assms] Let_def by blast
next
  show "let lrs = getAudioLanguagesAndRoles inst;
              ats = added_audio (snd (updateAudioTracks env trigger c))
          in length ats = length lrs \<and>
             (\<forall>i<length lrs.
                at_language (ats ! i) = lr_language (lrs ! i) \<and>
                at_kind (ats ! i) = (if lr_role (lrs ! i) \<noteq> [] then lr_role (lrs ! i) else ''main''))"
    unfolding added_audio_update[OF assms] Let_def
    by (simp add: nth_enumerate_eq toAudioTrack_def str_or_def)
next
  show "let tts = getTextTracks inst;
              txs = added_text (snd (updateTextTracks env trigger c))
          in length txs = length tts \<and>
             (\<forall>i<length tts.
                tx_language (txs ! i) = tt_language (tts ! i) \<and>
                tx_kind (txs ! i) =
                  (if truthy_str (tt_kind (tts ! i)) then the (tt_kind (tts ! i)) else ''subtitles'') \<and>
                tx_default (txs ! i) = (tt_primary (tts ! i) = Some True))"
    unfolding added_text_update[OF assms] Let_def
    by (auto simp: toTextTrack_def str_or_unfold truthy_str_def bool_or_def split: option.splits)
qed

theorem track_fields_pass_through_witness:
  "shaka_instance ex_controller = Some ex_player \<and>
   map q_codec (added_qualities (snd (updateQualityTracks ex_trigger ex_controller)))
     = [''avc1,mp4a'', ''hvc1,mp4a''] \<and>
   map at_kind (added_audio (snd (updateAudioTracks ex_env ex_trigger ex_controller)))
     = [''main'', ''dub''] \<and>
   map tx_kind (added_text (snd (updateTextTracks ex_env ex_trigger ex_controller)))
     = [''captions'', ''subtitles''] \<and>
   (let lrs = getAudioLanguagesAndRoles ex_player;
        ats = added_audio (snd (updateAudioTracks ex_env ex_trigger ex_controller))
    in length ats = length lrs \<and>
       (\<forall>i<length lrs.
          at_language (ats ! i) = lr_language (lrs ! i) \<and>
          at_kind (ats ! i) = (if lr_role (lrs ! i) \<noteq> [] then lr_role (lrs ! i) else ''main'')))"
proof -
  have h: "shaka_instance ex_controller = Some ex_player"
    by (simp add: ex_controller_def)
  have a: "map q_codec (added_qualities (snd (updateQualityTracks ex_trigger ex_controller)))
     = [''avc1,mp4a'', ''hvc1,mp4a'']" by code_simp
  have b: "map at_kind (added_audio (snd (updateAudioTracks ex_env ex_trigger ex_controller)))
     = [''main'', ''dub'']" by code_simp
  have d: "map tx_kind (added_text (snd (updateTextTracks ex_env ex_trigger ex_controller)))
     = [''captions'', ''subtitles'']" by code_simp
  from h a b d track_fields_pass_through[OF h, of ex_trigger ex_env] show ?thesis by blast
qed

text \<open>
  A fall-back also replaces a source field that is present but empty: the first audio
  language/role pair of the example player has the empty role, and the audio track made
  from it has the kind \<open>main\<close>, not the role.
\<close>

theorem audio_kind_counterexample:
  "lr_role (hd (getAudioLanguagesAndRoles ex_player)) = '''' \<and>
   at_kind (hd (added_audio (snd (updateAudioTracks ex_env ex_trigger ex_controller)))) = ''main'' \<and>
   at_kind (hd (added_audio (snd (updateAudioTracks ex_env ex_trigger ex_controller))))
     \<noteq> lr_role (hd (getAudioLanguagesAndRoles ex_player))"
  by code_simp

section \<open>Event delivery\<close>

lemma listeners_for_append:
  "listeners_for (xs @ ys) t = listeners_for xs t @ listeners_for ys t"
  by (simp add: listeners_for_def map_filter_append)

lemma listeners_for_Cons:
  "listeners_for (x # xs) t =
     (case x of AddEventListener t' h \<Rightarrow> if t' = t then [h] else [] | _ \<Rightarrow> []) @ listeners_for xs t"
  by (simp add: listeners_for_def split: call.splits)

lemma listeners_for_Nil: "listeners_for [] t = []"
  by (simp add: listeners_for_def)

lemma listeners_for_callbacks: "listeners_for (map (\<lambda>callback. Callback callback r) cbs) t = []"
  unfolding listeners_for_def by (rule map_filter_all_None) auto

lemma listeners_for_redispatch:
  "listeners_for (map (\<lambda>event. AddEventListener event H_dispatchShakaEvent) shaka_events) t =
     (if t \<in> set shaka_events then [H_dispatchShakaEvent] else [])"
  by (simp add: shaka_events_def listeners_for_Cons listeners_for_Nil)

lemma listeners_for_configure:
  "listeners_for (case cfg of None \<Rightarrow> [] | Some v \<Rightarrow> [Configure (UserConfig v)]) t = []"
  by (simp add: listeners_for_Cons listeners_for_Nil split: option.splits)

lemma listeners_for_filters:
  "listeners_for
     (case eng of
        None \<Rightarrow> []
      | Some networkingEngine \<Rightarrow>
          (case rf of None \<Rightarrow> [] | Some f \<Rightarrow> [RegisterRequestFilter networkingEngine f])
          @ (case sf of None \<Rightarrow> [] | Some f \<Rightarrow> [RegisterResponseFilter networkingEngine f])) t = []"
  by (simp add: listeners_for_Cons listeners_for_Nil listeners_for_append split: option.splits)

lemma listeners_for_setup:
  "listeners_for (snd (controller_setup env ct c)) t =
     (if t \<in> set shaka_events then [H_dispatchShakaEvent] else [])
     @ (if t = ''error'' then [H_onError] else [])
     @ (if t = ''adaptation'' then [H_onAdaptation] else [])
     @ (if t = ''trackschanged'' then [H_onTracksChanged] else [])
     @ (if t = ''loaded'' then [H_onLoaded] else [])
     @ (if t = ''buffering'' then [H_onBuffering] else [])"
  unfolding controller_setup_def Let_def snd_conv listeners_for_append listeners_for_redispatch
    listeners_for_callbacks listeners_for_configure listeners_for_filters
  by (simp add: listeners_for_Cons listeners_for_Nil)

lemma player_dispatches_append:
  "player_dispatches (xs @ ys) = player_dispatches xs @ player_dispatches ys"
  by (simp add: player_dispatches_def map_filter_append)

lemma player_dispatches_none:
  "(\<And>e. PlayerDispatch e \<notin> set xs) \<Longrightarrow> player_dispatches xs = []"
  unfolding player_dispatches_def by (rule map_filter_all_None) (auto split: call.splits)

lemma player_dispatches_updateQualityTracks:
  "player_dispatches (snd (updateQualityTracks trigger c)) = []"
  by (rule player_dispatches_none)
     (auto simp: updateQualityTracks_def Let_def split: option.splits)

lemma player_dispatches_updateAudioTracks:
  "player_dispatches (snd (updateAudioTracks env trigger c)) = []"
  by (rule player_dispatches_none)
     (auto simp: updateAudioTracks_def split: option.splits)

lemma player_dispatches_updateTextTracks:
  "player_dispatches (snd (updateTextTracks env trigger c)) = []"
  by (rule player_dispatches_none)
     (auto simp: updateTextTracks_def split: option.splits)

lemma player_dispatches_simps:
  "player_dispatches [] = []"
  "player_dispatches (PlayerDispatch e # xs) = e # player_dispatches xs"
  "player_dispatches (Notify a b d # xs) = player_dispatches xs"
  "player_dispatches (QualitiesSetAuto f g # xs) = player_dispatches xs"
  "player_dispatches (QualitiesSelect q f g # xs) = player_dispatches xs"
  "player_dispatches (VideoDispatch e # xs) = player_dispatches xs"
  "player_dispatches (Log m # xs) = player_dispatches xs"
  by (simp_all add: player_dispatches_def)

lemma player_dispatches_onLoaded: "player_dispatches (snd (onLoaded env c)) = []"
  by (simp add: onLoaded_def Let_def case_prod_unfold player_dispatches_append
      player_dispatches_simps player_dispatches_updateQualityTracks
      player_dispatches_updateAudioTracks player_dispatches_updateTextTracks
      split: option.splits)

lemma player_dispatches_onBuffering: "player_dispatches (snd (onBuffering env event c)) = []"
  by (simp add: onBuffering_def Let_def player_dispatches_simps)

lemma player_dispatches_onAdaptation: "player_dispatches (snd (onAdaptation env event c)) = []"
  by (simp add: onAdaptation_def Let_def player_dispatches_simps split: option.splits)

lemma player_dispatches_onTracksChanged: "player_dispatches (snd (onTracksChanged env event c)) = []"
  by (simp add: onTracksChanged_def Let_def player_dispatches_simps
      player_dispatches_updateQualityTracks)

lemma player_dispatches_dispatchShakaEvent:
  "player_dispatches (snd (dispatchShakaEvent env event c))
   = [DOMEvent (''shaka-'' @ camelToKebabCase env (se_type event)) (EventDetail event) None]"
  by (simp add: dispatchShakaEvent_def createDOMEvent_def toDOMEventType_def player_dispatches_simps)

lemma player_dispatches_run_handlers_quiet:
  "set hs \<subseteq> {H_onAdaptation, H_onTracksChanged, H_onLoaded, H_onBuffering}
   \<Longrightarrow> player_dispatches (snd (run_handlers env hs event c)) = []"
proof (induction hs arbitrary: c)
  case Nil
  then show ?case by (simp add: player_dispatches_simps)
next
  case (Cons h hs)
  from Cons.prems have h: "h \<in> {H_onAdaptation, H_onTracksChanged, H_onLoaded, H_onBuffering}"
    and hs: "set hs \<subseteq> {H_onAdaptation, H_onTracksChanged, H_onLoaded, H_onBuffering}" by auto
  from h have "player_dispatches (snd (run_handler env h event c)) = []"
    by (auto simp: run_handler_def player_dispatches_onAdaptation player_dispatches_onTracksChanged
        player_dispatches_onLoaded player_dispatches_onBuffering)
  with Cons.IH[OF hs] show ?case
    by (simp add: case_prod_unfold Let_def player_dispatches_append)
qed

text \<open>
  C6. For every event type in the subscribed list, delivering an event of that type to the
  listeners that \<open>setup\<close> added dispatches exactly one event on the host player: its type is
  \<open>shaka-\<close> followed by \<open>camelToKebabCase\<close> of the Shaka type, its detail is the Shaka event.
\<close>

theorem shaka_event_redispatch:
  assumes "se_type event \<in> set shaka_events"
  shows "player_dispatches (snd (receive env (snd (controller_setup env ct c0)) event c))
         = [DOMEvent (''shaka-'' @ camelToKebabCase env (se_type event)) (EventDetail event) None]"
proof -
  let ?rest = "(if se_type event = ''adaptation'' then [H_onAdaptation] else [])
     @ (if se_type event = ''trackschanged'' then [H_onTracksChanged] else [])
     @ (if se_type event = ''loaded'' then [H_onLoaded] else [])
     @ (if se_type event = ''buffering'' then [H_onBuffering] else [])"
  from assms have ne: "se_type event \<noteq> ''error''" by (auto simp: shaka_events_def)
  have ls: "listeners_for (snd (controller_setup env ct c0)) (se_type event)
            = H_dispatchShakaEvent # ?rest"
    using assms ne by (simp add: listeners_for_setup)
  have quiet: "set ?rest \<subseteq> {H_onAdaptation, H_onTracksChanged, H_onLoaded, H_onBuffering}"
    by auto
  have "player_dispatches (snd (run_handlers env (H_dispatchShakaEvent # ?rest) event c))
        = player_dispatches (snd (dispatchShakaEvent env event c))
          @ player_dispatches (snd (run_handlers env ?rest event (fst (dispatchShakaEvent env event c))))"
    by (simp add: case_prod_unfold Let_def player_dispatches_append run_handler_def)
  also have "\<dots> = [DOMEvent (''shaka-'' @ camelToKebabCase env (se_type event)) (EventDetail event) None]"
    by (simp only: player_dispatches_run_handlers_quiet[OF quiet]
        player_dispatches_dispatchShakaEvent append_Nil2)
  finally show ?thesis by (simp only: receive_def ls)
qed

theorem shaka_event_redispatch_witness:
  "se_type ex_event_loaded \<in> set shaka_events \<and>
   player_dispatches
     (snd (receive ex_env (snd (controller_setup ex_env ex_ctor ex_fresh)) ex_event_loaded ex_controller))
   = [DOMEvent ''shaka-loaded'' (EventDetail ex_event_loaded) None]"
proof -
  have h: "se_type ex_event_loaded \<in> set shaka_events"
    by (simp add: ex_event_loaded_def shaka_events_def)
  have k: "camelToKebabCase ex_env (se_type ex_event_loaded) = ''loaded''"
    by (simp add: ex_env_def ex_event_loaded_def)
  from h shaka_event_redispatch[OF h, of ex_env ex_ctor ex_fresh ex_controller] show ?thesis
    by (simp add: k)
qed

section \<open>Errors of the library\<close>

lemma notified_errors_append:
  "notified_errors (xs @ ys) = notified_errors xs @ notified_errors ys"
  by (simp add: notified_errors_def map_filter_append)

lemma load_calls_append: "load_calls (xs @ ys) = load_calls xs @ load_calls ys"
  by (simp add: load_calls_def map_filter_append)

lemma notified_errors_Load: "notified_errors (Load url # xs) = notified_errors xs"
  by (simp add: notified_errors_def)

lemma notified_errors_error:
  "notified_errors [Notify ''error'' (MediaError m k e) t] = [e]"
  by (simp add: notified_errors_def)

lemma load_calls_Load: "load_calls (Load url # xs) = url # load_calls xs"
  by (simp add: load_calls_def)

lemma load_calls_Notify: "load_calls [Notify a b t] = []"
  by (simp add: load_calls_def)

lemma notified_errors_dev_log: "notified_errors (dev_log env c msg) = []"
  by (simp add: dev_log_def notified_errors_def)

lemma load_calls_dev_log: "load_calls (dev_log env c msg) = []"
  by (simp add: dev_log_def load_calls_def)

lemma receive_error:
  "se_type event = ''error'' \<Longrightarrow>
   receive env (snd (controller_setup env ct c0)) event c = onError env event c"
  by (simp add: receive_def listeners_for_setup shaka_events_def run_handler_def Let_def)

text \<open>
  C2. An \<open>error\<close> event with a detail, delivered to the listeners that \<open>setup\<close> added, gives
  exactly one error notification, which carries the library's error object; a rejection of
  \<open>instance.load\<close> during \<open>loadSource\<close> gives exactly one error notification, which carries
  the rejection value. In both cases the controller is left as it was and \<open>instance.load\<close> is
  called no further time: not at all by the error handler, once by \<open>loadSource\<close>.
\<close>

theorem library_errors_forwarded:
  "(se_type event = ''error'' \<and> se_detail event = Some error \<longrightarrow>
      (let (c', calls) = receive env (snd (controller_setup env ct c0)) event c
       in notified_errors calls = [ShakaErr error] \<and> load_calls calls = [] \<and> c' = c)) \<and>
   (shaka_instance c = Some inst \<and> src_src src = Some url \<and> load inst url = Some e \<longrightarrow>
      (let (c', calls) = loadSource env src c
       in notified_errors calls = [Caught e] \<and> load_calls calls = [url] \<and> c' = c))"
proof (intro conjI impI)
  assume a: "se_type event = ''error'' \<and> se_detail event = Some error"
  then have r: "receive env (snd (controller_setup env ct c0)) event c = onError env event c"
    by (simp add: receive_error)
  from a show "let (c', calls) = receive env (snd (controller_setup env ct c0)) event c
       in notified_errors calls = [ShakaErr error] \<and> load_calls calls = [] \<and> c' = c"
    unfolding r
    by (simp add: onError_def onFatalError_def Let_def notified_errors_append load_calls_append
        notified_errors_dev_log load_calls_dev_log notified_errors_error load_calls_Notify)
next
  assume "shaka_instance c = Some inst \<and> src_src src = Some url \<and> load inst url = Some e"
  then show "let (c', calls) = loadSource env src c
       in notified_errors calls = [Caught e] \<and> load_calls calls = [url] \<and> c' = c"
    by (simp add: loadSource_def notified_errors_append load_calls_append
        notified_errors_Load load_calls_Load
        notified_errors_dev_log load_calls_dev_log notified_errors_error load_calls_Notify)
qed

theorem library_errors_forwarded_witness:
  "(se_type ex_event_error = ''error'' \<and> se_detail ex_event_error = Some ex_error) \<and>
   (shaka_instance ex_controller = Some ex_player \<and> src_src ex_src = Some ''bad.mpd'' \<and>
    load ex_player ''bad.mpd'' = Some (ErrorObject ''manifest not found'')) \<and>
   (let (c', calls) = receive ex_env (snd (controller_setup ex_env ex_ctor ex_fresh)) ex_event_error ex_controller
    in notified_errors calls = [ShakaErr ex_error] \<and> load_calls calls = [] \<and> c' = ex_controller) \<and>
   (let (c', calls) = loadSource ex_env ex_src ex_controller
    in notified_errors calls = [Caught (ErrorObject ''manifest not found'')] \<and>
       load_calls calls = [''bad.mpd''] \<and> c' = ex_controller)"
proof -
  have h1: "se_type ex_event_error = ''error'' \<and> se_detail ex_event_error = Some ex_error"
    by (simp add: ex_event_error_def)
  have h2: "shaka_instance ex_controller = Some ex_player \<and> src_src ex_src = Some ''bad.mpd'' \<and>
    load ex_player ''bad.mpd'' = Some (ErrorObject ''manifest not found'')"
    by (simp add: ex_controller_def ex_src_def ex_player_def)
  from h1 h2
    library_errors_forwarded[of ex_event_error ex_error ex_env ex_ctor ex_fresh ex_controller
      ex_player ex_src "''bad.mpd''" "ErrorObject ''manifest not found''"]
  show ?thesis by blast
qed

section \<open>User quality selection\<close>

lemma find_first:
  "P t \<Longrightarrow> \<forall>u\<in>set pre. \<not> P u \<Longrightarrow> find P (pre @ t # post) = Some t"
  by (induction pre) auto

lemma find_none: "\<forall>u\<in>set xs. \<not> P u \<Longrightarrow> find P xs = None"
  by (induction xs) auto

lemma change_listeners_append:
  "change_listeners (xs @ ys) tg = change_listeners xs tg @ change_listeners ys tg"
  by (simp add: change_listeners_def map_filter_append)

lemma change_listeners_none:
  "(\<And>a b h. ListenEvent a b h \<notin> set xs) \<Longrightarrow> change_listeners xs tg = []"
  unfolding change_listeners_def by (rule map_filter_all_None) (auto split: call.splits)

lemma change_listeners_setup:
  "change_listeners (snd (controller_setup env ct c)) Qualities = [H_onUserQualityChange]"
proof -
  have a: "\<And>r cbs. change_listeners (map (\<lambda>callback. Callback callback r) cbs) Qualities = []"
    by (rule change_listeners_none) auto
  have b: "change_listeners (map (\<lambda>event. AddEventListener event H_dispatchShakaEvent) shaka_events)
             Qualities = []"
    by (rule change_listeners_none) auto
  show ?thesis
    unfolding controller_setup_def Let_def snd_conv change_listeners_append a b
    by (simp add: change_listeners_def split: option.splits)
qed

text \<open>
  C7. The handler that setup attaches to the \<open>change\<close> event of the host quality list is
  \<open>#onUserQualityChange\<close>. On a change while an instance exists, auto mode is off and a
  quality is selected, the calls on the library are: ABR is disabled, and then the first
  variant track whose height is the selected quality's height, if there is one, is
  selected, clearing the buffer exactly when the switch mode is \<open>current\<close>. If the instance
  is missing, auto mode is on or no quality is selected, no call at all is made.
\<close>

theorem user_quality_change_forwarded:
  "change_listeners (snd (controller_setup env ct c0)) Qualities = [H_onUserQualityChange] \<and>
   run_handler env H_onUserQualityChange event c = onUserQualityChange env c \<and>
   (shaka_instance c = None \<or> ctx_qualities_auto c \<or> ctx_qualities_selected c = None
      \<longrightarrow> onUserQualityChange env c = (c, [])) \<and>
   (shaka_instance c = Some inst \<and> \<not> ctx_qualities_auto c \<and> ctx_qualities_selected c = Some q \<longrightarrow>
      (getVariantTracks inst = pre @ t # post \<and> vt_height t = Some (q_height q) \<and>
       (\<forall>u\<in>set pre. vt_height u \<noteq> Some (q_height q))
         \<longrightarrow> library_calls (snd (onUserQualityChange env c))
             = [Configure (AbrEnabled False),
                SelectVariantTrack t (ctx_qualities_switch c = ''current'')]) \<and>
      ((\<forall>u\<in>set (getVariantTracks inst). vt_height u \<noteq> Some (q_height q))
         \<longrightarrow> library_calls (snd (onUserQualityChange env c)) = [Configure (AbrEnabled False)]))"
proof (intro conjI impI)
  show "change_listeners (snd (controller_setup env ct c0)) Qualities = [H_onUserQualityChange]"
    by (rule change_listeners_setup)
  show "run_handler env H_onUserQualityChange event c = onUserQualityChange env c"
    by (simp add: run_handler_def)
next
  assume "shaka_instance c = None \<or> ctx_qualities_auto c \<or> ctx_qualities_selected c = None"
  then show "onUserQualityChange env c = (c, [])"
    by (auto simp: onUserQualityChange_def split: option.splits)
next
  assume g: "shaka_instance c = Some inst \<and> \<not> ctx_qualities_auto c \<and> ctx_qualities_selected c = Some q"
    and m: "getVariantTracks inst = pre @ t # post \<and> vt_height t = Some (q_height q) \<and>
       (\<forall>u\<in>set pre. vt_height u \<noteq> Some (q_height q))"
  from m have "find (\<lambda>track. vt_height track = Some (q_height q)) (getVariantTracks inst) = Some t"
    by (simp add: find_first)
  with g show "library_calls (snd (onUserQualityChange env c))
             = [Configure (AbrEnabled False),
                SelectVariantTrack t (ctx_qualities_switch c = ''current'')]"
    by (simp add: onUserQualityChange_def Let_def library_calls_def is_library_call_def)
next
  assume g: "shaka_instance c = Some inst \<and> \<not> ctx_qualities_auto c \<and> ctx_qualities_selected c = Some q"
    and m: "\<forall>u\<in>set (getVariantTracks inst). vt_height u \<noteq> Some (q_height q)"
  from m have "find (\<lambda>track. vt_height track = Some (q_height q)) (getVariantTracks inst) = None"
    by (simp add: find_none)
  with g show "library_calls (snd (onUserQualityChange env c)) = [Configure (AbrEnabled False)]"
    by (simp add: onUserQualityChange_def Let_def library_calls_def is_library_call_def)
qed

theorem user_quality_change_forwarded_witness:
  "shaka_instance ex_fresh = None \<and>
   onUserQualityChange ex_env ex_fresh = (ex_fresh, []) \<and>
   shaka_instance ex_controller_selected = Some ex_player \<and>
   \<not> ctx_qualities_auto ex_controller_selected \<and>
   ctx_qualities_selected ex_controller_selected = Some ex_quality_720 \<and>
   getVariantTracks ex_player
     = [] @ ex_track_720_low # [ex_track_1080, ex_track_720_high, ex_track_audio_only] \<and>
   vt_height ex_track_720_low = Some (q_height ex_quality_720) \<and>
   library_calls (snd (onUserQualityChange ex_env ex_controller_selected))
     = [Configure (AbrEnabled False), SelectVariantTrack ex_track_720_low True] \<and>
   shaka_instance ex_controller_selected_480 = Some ex_player \<and>
   \<not> ctx_qualities_auto ex_controller_selected_480 \<and>
   ctx_qualities_selected ex_controller_selected_480 = Some ex_quality_480 \<and>
   library_calls (snd (onUserQualityChange ex_env ex_controller_selected_480))
     = [Configure (AbrEnabled False)]"
proof -
  have h0: "shaka_instance ex_fresh = None" by (simp add: ex_fresh_def)
  have h1: "shaka_instance ex_controller_selected = Some ex_player \<and>
    \<not> ctx_qualities_auto ex_controller_selected \<and>
    ctx_qualities_selected ex_controller_selected = Some ex_quality_720"
    by (simp add: ex_controller_selected_def ex_controller_def ex_fresh_def)
  have h2: "getVariantTracks ex_player = [] @ ex_track_720_low # [ex_track_1080, ex_track_720_high, ex_track_audio_only] \<and>
    vt_height ex_track_720_low = Some (q_height ex_quality_720) \<and>
    (\<forall>u\<in>set []. vt_height u \<noteq> Some (q_height ex_quality_720))"
    by (simp add: ex_player_def ex_track_720_low_def ex_quality_720_def)
  have sw: "(ctx_qualities_switch ex_controller_selected = ''current'') = True"
    by (simp add: ex_controller_selected_def ex_controller_def ex_fresh_def)
  from h0 have a: "onUserQualityChange ex_env ex_fresh = (ex_fresh, [])"
    using user_quality_change_forwarded[of ex_env ex_ctor ex_fresh ex_event_loaded ex_fresh] by blast
  from h1 h2 have b: "library_calls (snd (onUserQualityChange ex_env ex_controller_selected))
     = [Configure (AbrEnabled False), SelectVariantTrack ex_track_720_low
          (ctx_qualities_switch ex_controller_selected = ''current'')]"
    using user_quality_change_forwarded[of ex_env ex_ctor ex_fresh ex_event_loaded
        ex_controller_selected ex_player ex_quality_720
        "[]" ex_track_720_low "[ex_track_1080, ex_track_720_high, ex_track_audio_only]"]
    by blast
  have h3: "shaka_instance ex_controller_selected_480 = Some ex_player \<and>
    \<not> ctx_qualities_auto ex_controller_selected_480 \<and>
    ctx_qualities_selected ex_controller_selected_480 = Some ex_quality_480"
    by (simp add: ex_controller_selected_480_def ex_controller_def ex_fresh_def)
  have h4: "\<forall>u\<in>set (getVariantTracks ex_player). vt_height u \<noteq> Some (q_height ex_quality_480)"
    by (simp add: ex_player_def ex_track_720_low_def ex_track_1080_def ex_track_720_high_def
        ex_track_audio_only_def ex_quality_480_def)
  from h3 h4 have d: "library_calls (snd (onUserQualityChange ex_env ex_controller_selected_480))
     = [Configure (AbrEnabled False)]"
    using user_quality_change_forwarded[of ex_env ex_ctor ex_fresh ex_event_loaded
        ex_controller_selected_480 ex_player ex_quality_480]
    by blast
  from h0 h1 h2 h3 a b d show ?thesis by (simp only: sw) blast
qed

section \<open>Lifecycle order\<close>

lemma lifecycle_stages_append:
  "lifecycle_stages (xs @ ys) = lifecycle_stages xs @ lifecycle_stages ys"
  by (simp add: lifecycle_stages_def map_filter_append)

lemma lifecycle_stages_Cons:
  "lifecycle_stages (x # xs) =
     (case lifecycle_stage x of None \<Rightarrow> lifecycle_stages xs | Some s \<Rightarrow> s # lifecycle_stages xs)"
  by (simp add: lifecycle_stages_def split: option.splits)

lemma lifecycle_stages_Nil: "lifecycle_stages [] = []"
  by (simp add: lifecycle_stages_def)

lemma lifecycle_stages_dev_log: "lifecycle_stages (dev_log env c msg) = []"
  by (simp add: dev_log_def lifecycle_stages_def lifecycle_stage_def)

lemma lifecycle_stages_callbacks:
  "lifecycle_stages (map (\<lambda>callback. Callback callback r) cbs) = replicate (length cbs) 3"
  by (induction cbs) (simp_all add: lifecycle_stages_Cons lifecycle_stages_Nil lifecycle_stage_def)

lemma lifecycle_stages_redispatch:
  "lifecycle_stages (map (\<lambda>event. AddEventListener event H_dispatchShakaEvent) shaka_events)
   = replicate 11 2"
  by (simp add: shaka_events_def lifecycle_stages_def lifecycle_stage_def numeral_eq_Suc)

lemma lifecycle_stages_config_filters:
  "lifecycle_stages (config_filters ct c) = replicate (length (config_filters ct c)) 6"
  by (simp add: config_filters_def lifecycle_stages_Cons lifecycle_stages_Nil lifecycle_stage_def
      split: option.splits)

lemma controller_setup_calls:
  "snd (controller_setup env ct c) =
     [Construct (video c)]
     @ map (\<lambda>event. AddEventListener event H_dispatchShakaEvent) shaka_events
     @ [AddEventListener ''error'' H_onError]
     @ map (\<lambda>callback. Callback callback (player_ref (ct (video c)))) (callbacks c)
     @ [PlayerDispatch (DOMEvent ''shaka-instance'' (InstanceDetail (player_ref (ct (video c)))) None)]
     @ (case cfg_config (config c) of None \<Rightarrow> [] | Some cfg \<Rightarrow> [Configure (UserConfig cfg)])
     @ config_filters ct c
     @ [AddEventListener ''adaptation'' H_onAdaptation,
        AddEventListener ''trackschanged'' H_onTracksChanged,
        AddEventListener ''loaded'' H_onLoaded,
        AddEventListener ''buffering'' H_onBuffering]
     @ [SetEnableAuto H_enableAutoQuality,
        ListenEvent Qualities ''change'' H_onUserQualityChange,
        ListenEvent AudioTracks ''change'' H_onUserAudioChange]
     @ [Effect H_liveSync]"
  by (simp add: controller_setup_def Let_def config_filters_def)

lemma lifecycle_stages_setup:
  "lifecycle_stages (snd (controller_setup env ct c))
   = [1] @ replicate 12 2 @ replicate (length (callbacks c)) 3 @ [4]
     @ (if cfg_config (config c) = None then [] else [5])
     @ replicate (length (config_filters ct c)) 6 @ [7, 7, 7, 7]"
proof -
  have r: "replicate 12 (2::nat) = replicate 11 2 @ [2]"
    by (simp add: numeral_eq_Suc)
  show ?thesis
    unfolding controller_setup_calls lifecycle_stages_append lifecycle_stages_redispatch
      lifecycle_stages_callbacks lifecycle_stages_config_filters r
    by (simp add: lifecycle_stages_Cons lifecycle_stages_Nil lifecycle_stage_def
        split: option.splits)
qed

lemma setup_instance: "shaka_instance (fst (controller_setup env ct c)) = Some (ct (video c))"
  by (simp add: controller_setup_def Let_def)

lemma setup_source: "ctx_source (fst (controller_setup env ct c)) = ctx_source c"
  by (simp add: controller_setup_def Let_def)

lemma lifecycle_stages_load_start:
  "shaka_instance (controller p) = Some inst \<Longrightarrow>
   lifecycle_stages (provider_loadSource_start src preload p)
   = (case src_src src of None \<Rightarrow> [] | Some url \<Rightarrow> [8])"
  by (simp add: provider_loadSource_start_def loadSource_start_def lifecycle_stages_Cons
      lifecycle_stages_Nil lifecycle_stage_def split: option.splits)

lemma lifecycle_stages_onCtor:
  "lifecycle_stages (snd (provider_onCtor env ct p)) = setup_stages ct (controller p)"
proof -
  let ?p2 = "p\<lparr>ctor := Some ct, controller := fst (controller_setup env ct (controller p))\<rparr>"
  have i: "shaka_instance (controller ?p2) = Some (ct (video (controller p)))"
    by (simp add: setup_instance)
  have l: "lifecycle_stages
             (case ctx_source (fst (controller_setup env ct (controller p))) of
                None \<Rightarrow> []
              | Some src \<Rightarrow> provider_loadSource_start src None ?p2)
           = (case ctx_source (controller p) of
                None \<Rightarrow> []
              | Some src \<Rightarrow> (case src_src src of None \<Rightarrow> [] | Some url \<Rightarrow> [8]))"
    by (simp add: setup_source lifecycle_stages_load_start[OF i] lifecycle_stages_Nil
        split: option.splits)
  show ?thesis
    unfolding onCtor_calls lifecycle_stages_append l lifecycle_stages_setup setup_stages_def
    by (simp add: lifecycle_stages_Cons lifecycle_stages_Nil lifecycle_stage_def)
qed

lemma sorted_setup_stages: "sorted (setup_stages ct c)"
  by (auto simp: setup_stages_def sorted_append split: option.splits)

lemma setup_stages_positive: "x \<in> set (setup_stages ct c) \<Longrightarrow> 1 \<le> x"
  by (auto simp: setup_stages_def split: option.splits if_splits)

lemma sorted_zeros: "set xs \<subseteq> {0::nat} \<Longrightarrow> sorted xs"
  by (induction xs) auto

lemma filter_registration_stage: "is_filter_registration x \<Longrightarrow> lifecycle_stage x = Some 6"
  by (cases x) (simp_all add: is_filter_registration_def lifecycle_stage_def)

lemma no_filter_without_stage:
  "6 \<notin> set (lifecycle_stages xs) \<Longrightarrow> filter_registrations xs = []"
proof (induction xs)
  case Nil
  then show ?case by (simp add: filter_registrations_Nil)
next
  case (Cons x xs)
  from Cons.prems have n: "\<not> is_filter_registration x"
    by (auto simp: lifecycle_stages_Cons dest: filter_registration_stage)
  from Cons.prems have "6 \<notin> set (lifecycle_stages xs)"
    by (auto simp: lifecycle_stages_Cons split: option.splits)
  with Cons.IH n show ?case by (simp add: filter_registrations_Cons)
qed

lemma lifecycle_stages_pending: "lifecycle_stages (provider_onCtor_pending env p) = []"
  by (simp add: provider_onCtor_pending_def provider_loadSource_settle_def loadSource_settle_def
      lifecycle_stages_append lifecycle_stages_dev_log lifecycle_stages_Cons lifecycle_stages_Nil
      lifecycle_stage_def split: option.splits)

lemma lifecycle_stages_onLoadStart: "lifecycle_stages (lib_onLoadStart env p) = []"
  by (simp add: lib_onLoadStart_def lifecycle_stages_append lifecycle_stages_dev_log
      lifecycle_stages_Cons lifecycle_stages_Nil lifecycle_stage_def)

lemma lifecycle_stages_onLoadError: "lifecycle_stages (lib_onLoadError env e p) = []"
  by (simp add: lib_onLoadError_def Let_def lifecycle_stages_append lifecycle_stages_dev_log
      lifecycle_stages_Cons lifecycle_stages_Nil lifecycle_stage_def)

lemma lifecycle_stages_polyfills: "lifecycle_stages (install_polyfills ns) = []"
  by (simp add: install_polyfills_def lifecycle_stages_def lifecycle_stage_def)

lemma lifecycle_stages_unsupported:
  "lifecycle_stages
     (dev_log env c unsupported_message
      @ [PlayerDispatch (DOMEvent ''shaka-unsupported'' NoDetail None),
         Notify ''error'' (MediaError unsupported_message 4 NoError) None]) = []"
  by (simp add: lifecycle_stages_append lifecycle_stages_dev_log lifecycle_stages_Cons
      lifecycle_stages_Nil lifecycle_stage_def)

subsection \<open>The shape of a loader run\<close>

lemma run_shape_quiet: "set (lifecycle_stages calls) \<subseteq> {0} \<Longrightarrow> run_shape env p calls p'"
  by (simp add: run_shape_def)

lemma run_shape_run:
  "calls = pre @ snd (provider_onCtor env ct p) @ post \<Longrightarrow> set (lifecycle_stages pre) \<subseteq> {0}
   \<Longrightarrow> lifecycle_stages post = [] \<Longrightarrow> ctor p' = Some ct \<Longrightarrow> run_shape env p calls p'"
  unfolding run_shape_def by blast

lemma run_shape_extend:
  assumes "run_shape env p calls p'" "lifecycle_stages a = []" "lifecycle_stages b = []"
  shows "run_shape env p (a @ calls @ b) p'"
proof -
  from assms(1) consider (quiet) "set (lifecycle_stages calls) \<subseteq> {0}"
    | (run) pre post ct where "calls = pre @ snd (provider_onCtor env ct p) @ post"
        "set (lifecycle_stages pre) \<subseteq> {0}" "lifecycle_stages post = []" "ctor p' = Some ct"
    unfolding run_shape_def by blast
  then show ?thesis
  proof cases
    case quiet
    with assms(2,3) show ?thesis
      by (intro run_shape_quiet) (simp add: lifecycle_stages_append)
  next
    case run
    show ?thesis
    proof (rule run_shape_run[where pre = "a @ pre" and post = "post @ b" and ct = ct])
      show "a @ calls @ b = (a @ pre) @ snd (provider_onCtor env ct p) @ post @ b"
        using run(1) by simp
      show "set (lifecycle_stages (a @ pre)) \<subseteq> {0}"
        using run(2) assms(2) by (simp add: lifecycle_stages_append)
      show "lifecycle_stages (post @ b) = []"
        using run(3) assms(3) by (simp add: lifecycle_stages_append)
      show "ctor p' = Some ct" by (rule run(4))
    qed
  qed
qed

lemma onCtor_ctor: "ctor (fst (provider_onCtor env ct p)) = Some ct"
  by (simp add: provider_onCtor_def Let_def case_prod_unfold)

lemma run_shape_onLoaded:
  assumes "lifecycle_stages a = [] \<or> lifecycle_stages a = [0]"
  shows "run_shape env p (a @ snd (lib_onLoaded env ct p)) (fst (lib_onLoaded env ct p))"
proof (rule run_shape_run[where
      pre = "a @ dev_log env (controller p) ''Loaded Shaka Player''
               @ [PlayerDispatch (DOMEvent ''shaka-lib-loaded'' CtorDetail None)]"
      and post = "[]" and ct = ct])
  show "a @ snd (lib_onLoaded env ct p)
        = (a @ dev_log env (controller p) ''Loaded Shaka Player''
             @ [PlayerDispatch (DOMEvent ''shaka-lib-loaded'' CtorDetail None)])
          @ snd (provider_onCtor env ct p) @ []"
    by (simp add: lib_onLoaded_def Let_def case_prod_unfold)
  show "set (lifecycle_stages
               (a @ dev_log env (controller p) ''Loaded Shaka Player''
                  @ [PlayerDispatch (DOMEvent ''shaka-lib-loaded'' CtorDetail None)])) \<subseteq> {0}"
    using assms
    by (auto simp: lifecycle_stages_append lifecycle_stages_dev_log lifecycle_stages_Cons
        lifecycle_stages_Nil lifecycle_stage_def)
  show "lifecycle_stages [] = []" by (rule lifecycle_stages_Nil)
  show "ctor (fst (lib_onLoaded env ct p)) = Some ct"
    by (simp add: lib_onLoaded_def Let_def case_prod_unfold onCtor_ctor)
qed

lemma run_shape_loadShakaScript:
  "run_shape env p (snd (fst (loadShakaScript env lib p))) (fst (fst (loadShakaScript env lib p)))"
proof (cases lib)
  case (LibUrl url)
  let ?start = "lib_onLoadStart env p @ [LoadScript url]"
  have fail: "\<And>e. run_shape env p (?start @ lib_onLoadError env e p) p"
    by (rule run_shape_quiet)
       (simp add: lifecycle_stages_append lifecycle_stages_onLoadStart lifecycle_stages_onLoadError
         lifecycle_stages_Cons lifecycle_stage_def)
  show ?thesis
  proof (cases "loadScript env url")
    case (Some err)
    with LibUrl fail[of err] show ?thesis
      by (simp add: loadShakaScript_def Let_def)
  next
    case None
    show ?thesis
    proof (cases "window_shaka env")
      case wn: None
      with LibUrl None fail[of "ErrorObject (load_failed_message env)"] show ?thesis
        by (simp add: loadShakaScript_def Let_def)
    next
      case (Some shaka)
      show ?thesis
      proof (cases "ns_Player shaka")
        case pn: None
        with LibUrl None Some fail[of "ErrorObject (load_failed_message env)"] show ?thesis
          by (simp add: loadShakaScript_def Let_def)
      next
        case ps: (Some ct)
        have "lifecycle_stages (?start @ install_polyfills shaka) = [] \<or>
              lifecycle_stages (?start @ install_polyfills shaka) = [0]"
          by (simp add: lifecycle_stages_append lifecycle_stages_onLoadStart
              lifecycle_stages_polyfills lifecycle_stages_Cons lifecycle_stage_def)
        from run_shape_onLoaded[OF this, of env p ct] LibUrl None Some ps show ?thesis
          by (simp add: loadShakaScript_def Let_def case_prod_unfold)
      qed
    qed
  qed
next
  case (LibNamespace ns)
  then show ?thesis
    by (simp add: loadShakaScript_def run_shape_quiet lifecycle_stages_Nil)
next
  case (LibLoader outcome)
  then show ?thesis
    by (simp add: loadShakaScript_def run_shape_quiet lifecycle_stages_Nil)
next
  case LibUndefined
  then show ?thesis
    by (simp add: loadShakaScript_def run_shape_quiet lifecycle_stages_Nil)
qed

lemma loadShakaScript_not_url:
  "\<not> is_url lib \<Longrightarrow> loadShakaScript env lib p = ((p, []), None)"
  by (cases lib) (simp_all add: loadShakaScript_def is_url_def)

lemma run_shape_importShaka:
  "run_shape env p (snd (fst (importShaka env lib p))) (fst (fst (importShaka env lib p)))"
proof (cases lib)
  case (LibUrl url)
  then show ?thesis by (simp add: importShaka_def run_shape_quiet lifecycle_stages_Nil)
next
  case (LibNamespace ns)
  show ?thesis
  proof (cases "ns_Player ns")
    case None
    have "run_shape env p
            (lib_onLoadStart env p @ lib_onLoadError env (ErrorObject ''loader is not a function'') p) p"
      by (rule run_shape_quiet)
         (simp add: lifecycle_stages_append lifecycle_stages_onLoadStart lifecycle_stages_onLoadError)
    with LibNamespace None show ?thesis by (simp add: importShaka_def)
  next
    case (Some ct)
    have "lifecycle_stages (lib_onLoadStart env p @ install_polyfills ns) = [] \<or>
          lifecycle_stages (lib_onLoadStart env p @ install_polyfills ns) = [0]"
      by (simp add: lifecycle_stages_append lifecycle_stages_onLoadStart lifecycle_stages_polyfills)
    from run_shape_onLoaded[OF this, of env p ct] LibNamespace Some show ?thesis
      by (simp add: importShaka_def Let_def case_prod_unfold)
  qed
next
  case (LibLoader outcome)
  let ?start = "lib_onLoadStart env p @ [DynamicImport]"
  have fail: "\<And>e. run_shape env p (?start @ lib_onLoadError env e p) p"
    by (rule run_shape_quiet)
       (simp add: lifecycle_stages_append lifecycle_stages_onLoadStart lifecycle_stages_onLoadError
         lifecycle_stages_Cons lifecycle_stage_def)
  show ?thesis
  proof (cases outcome)
    case (Inl err)
    with LibLoader fail[of err] show ?thesis by (simp add: importShaka_def)
  next
    case (Inr r)
    show ?thesis
    proof (cases r)
      case None
      with LibLoader Inr fail[of "ErrorObject (import_failed_message env)"] show ?thesis
        by (simp add: importShaka_def)
    next
      case (Some ns)
      show ?thesis
      proof (cases "ns_Player ns")
        case pn: None
        with LibLoader Inr Some fail[of "ErrorObject (import_failed_message env)"] show ?thesis
          by (simp add: importShaka_def)
      next
        case ps: (Some ct)
        have "lifecycle_stages (?start @ install_polyfills ns) = [] \<or>
              lifecycle_stages (?start @ install_polyfills ns) = [0]"
          by (simp add: lifecycle_stages_append lifecycle_stages_onLoadStart
              lifecycle_stages_polyfills lifecycle_stages_Cons lifecycle_stage_def)
        from run_shape_onLoaded[OF this, of env p ct] LibLoader Inr Some ps show ?thesis
          by (simp add: importShaka_def Let_def case_prod_unfold)
      qed
    qed
  qed
next
  case LibUndefined
  then show ?thesis by (simp add: importShaka_def run_shape_quiet lifecycle_stages_Nil)
qed

lemma startLoading_after:
  "\<exists>extra. lifecycle_stages extra = [] \<and>
     snd (fst (startLoading env p))
     = dev_log env (controller p) ''Loading Shaka Player Library''
       @ (if is_url (library p) then snd (fst (loadShakaScript env (library p) p))
          else snd (fst (importShaka env (library p) p)))
       @ extra \<and>
     fst (fst (startLoading env p))
     = (if is_url (library p) then fst (fst (loadShakaScript env (library p) p))
        else fst (fst (importShaka env (library p) p)))"
proof (cases "is_url (library p)")
  case True
  show ?thesis
  proof (cases "snd (loadShakaScript env (library p) p)")
    case None
    show ?thesis
      by (rule exI[of _ "[]"])
         (simp add: startLoading_def Let_def case_prod_unfold True None lifecycle_stages_Nil)
  next
    case (Some ct)
    show ?thesis
    proof (cases "MediaSource_defined env")
      case ms: True
      show ?thesis
        by (rule exI[of _ "provider_onCtor_pending env (fst (fst (loadShakaScript env (library p) p)))"])
           (simp add: startLoading_def Let_def case_prod_unfold True Some ms lifecycle_stages_pending)
    next
      case ms: False
      show ?thesis
        by (rule exI[of _ "dev_log env (controller (fst (fst (loadShakaScript env (library p) p)))) unsupported_message
              @ [PlayerDispatch (DOMEvent ''shaka-unsupported'' NoDetail None),
                 Notify ''error'' (MediaError unsupported_message 4 NoError) None]
              @ provider_onCtor_pending env (fst (fst (loadShakaScript env (library p) p)))"])
           (simp add: startLoading_def Let_def case_prod_unfold True Some ms
             lifecycle_stages_pending lifecycle_stages_append lifecycle_stages_dev_log
             lifecycle_stages_Cons lifecycle_stages_Nil lifecycle_stage_def)
    qed
  qed
next
  case False
  note nu = loadShakaScript_not_url[OF False]
  show ?thesis
  proof (cases "snd (importShaka env (library p) p)")
    case None
    show ?thesis
      by (rule exI[of _ "[]"])
         (simp add: startLoading_def Let_def case_prod_unfold False None nu lifecycle_stages_Nil)
  next
    case (Some ct)
    show ?thesis
    proof (cases "MediaSource_defined env")
      case ms: True
      show ?thesis
        by (rule exI[of _ "provider_onCtor_pending env (fst (fst (importShaka env (library p) p)))"])
           (simp add: startLoading_def Let_def case_prod_unfold False Some ms nu lifecycle_stages_pending)
    next
      case ms: False
      show ?thesis
        by (rule exI[of _ "dev_log env (controller (fst (fst (importShaka env (library p) p)))) unsupported_message
              @ [PlayerDispatch (DOMEvent ''shaka-unsupported'' NoDetail None),
                 Notify ''error'' (MediaError unsupported_message 4 NoError) None]
              @ provider_onCtor_pending env (fst (fst (importShaka env (library p) p)))"])
           (simp add: startLoading_def Let_def case_prod_unfold False Some ms nu
             lifecycle_stages_pending lifecycle_stages_append lifecycle_stages_dev_log
             lifecycle_stages_Cons lifecycle_stages_Nil lifecycle_stage_def)
    qed
  qed
qed

lemma run_shape_startLoading:
  "run_shape env p (snd (fst (startLoading env p))) (fst (fst (startLoading env p)))"
proof -
  from startLoading_after[of env p] obtain extra where e: "lifecycle_stages extra = []"
    and c: "snd (fst (startLoading env p))
     = dev_log env (controller p) ''Loading Shaka Player Library''
       @ (if is_url (library p) then snd (fst (loadShakaScript env (library p) p))
          else snd (fst (importShaka env (library p) p)))
       @ extra"
    and s: "fst (fst (startLoading env p))
     = (if is_url (library p) then fst (fst (loadShakaScript env (library p) p))
        else fst (fst (importShaka env (library p) p)))"
    by blast
  have "run_shape env p
          (if is_url (library p) then snd (fst (loadShakaScript env (library p) p))
           else snd (fst (importShaka env (library p) p)))
          (fst (fst (startLoading env p)))"
    unfolding s by (simp add: run_shape_loadShakaScript run_shape_importShaka)
  from run_shape_extend[OF this lifecycle_stages_dev_log e] show ?thesis
    by (simp only: c)
qed

lemma run_shape_provider_setup:
  "run_shape env p (snd (provider_setup env p)) (fst (provider_setup env p))"
proof -
  have a: "lifecycle_stages [SuperSetup] = []"
    by (simp add: lifecycle_stages_Cons lifecycle_stages_Nil lifecycle_stage_def)
  have c: "snd (provider_setup env p) = [SuperSetup] @ snd (fst (startLoading env p)) @ []"
    by (simp add: provider_setup_def Let_def case_prod_unfold)
  have s: "fst (provider_setup env p) = fst (fst (startLoading env p))"
    by (simp add: provider_setup_def Let_def case_prod_unfold)
  from run_shape_extend[OF run_shape_startLoading a lifecycle_stages_Nil, of env p] show ?thesis
    by (simp only: c s)
qed
text \<open>
  C3, as the code has it. In every run of the provider's setup the calls come in the order:
  library load (script load or dynamic import), construction of the player, attachment of
  the eleven re-dispatch listeners and of the error listener, the instance callbacks, the
  \<open>shaka-instance\<close> event, configuration, filter registration, attachment of the four track
  listeners, source load: no call of a later stage is followed by a call of an earlier one.
  A run that constructs the player or loads the source goes through exactly these calls
  after the library load: one construction, twelve early listeners, one call of every
  registered instance callback, one \<open>shaka-instance\<close> event, \<open>configure\<close> with \<open>config.config\<close>
  exactly when that is set, the registrations of the configured filters with the networking
  engine of the new instance when it has one, four track listeners, and one source load
  exactly when the state holds a source with a string URL.
\<close>

theorem lifecycle_order:
  "let calls = snd (provider_setup env p);
       stages = lifecycle_stages calls;
       c = controller p
   in sorted stages \<and>
      (1 \<in> set stages \<or> 8 \<in> set stages \<longrightarrow>
         (\<exists>pre ct.
            ctor (fst (provider_setup env p)) = Some ct \<and>
            set pre \<subseteq> {0} \<and>
            stages = pre @ [1] @ replicate 12 2 @ replicate (length (callbacks c)) 3 @ [4]
                     @ (if cfg_config (config c) = None then [] else [5])
                     @ replicate (length (filter_registrations calls)) 6 @ [7, 7, 7, 7]
                     @ (case ctx_source c of
                          None \<Rightarrow> []
                        | Some src \<Rightarrow> (case src_src src of None \<Rightarrow> [] | Some url \<Rightarrow> [8])) \<and>
            filter_registrations calls
              = (case getNetworkingEngine (ct (video c)) of
                   None \<Rightarrow> []
                 | Some eng \<Rightarrow>
                     (case cfg_requestFilter (config c) of
                        None \<Rightarrow> []
                      | Some f \<Rightarrow> [RegisterRequestFilter eng f])
                     @ (case cfg_responseFilter (config c) of
                          None \<Rightarrow> []
                        | Some f \<Rightarrow> [RegisterResponseFilter eng f])) \<and>
            (\<forall>cfg. cfg_config (config c) = Some cfg \<longrightarrow> Configure (UserConfig cfg) \<in> set calls) \<and>
            (\<forall>cb\<in>set (callbacks c). Callback cb (player_ref (ct (video c))) \<in> set calls) \<and>
            PlayerDispatch (DOMEvent ''shaka-instance'' (InstanceDetail (player_ref (ct (video c)))) None)
              \<in> set calls))"
proof -
  let ?calls = "snd (provider_setup env p)"
  let ?c = "controller p"
  from run_shape_provider_setup[of env p]
  consider (quiet) "set (lifecycle_stages ?calls) \<subseteq> {0}"
    | (run) pre post ct where "?calls = pre @ snd (provider_onCtor env ct p) @ post"
        "set (lifecycle_stages pre) \<subseteq> {0}" "lifecycle_stages post = []"
        "ctor (fst (provider_setup env p)) = Some ct"
    unfolding run_shape_def by blast
  then have "sorted (lifecycle_stages ?calls) \<and>
      (1 \<in> set (lifecycle_stages ?calls) \<or> 8 \<in> set (lifecycle_stages ?calls) \<longrightarrow>
         (\<exists>pre ct.
            ctor (fst (provider_setup env p)) = Some ct \<and>
            set pre \<subseteq> {0} \<and>
            lifecycle_stages ?calls = pre @ setup_stages ct ?c \<and>
            length (filter_registrations ?calls) = length (config_filters ct ?c) \<and>
            filter_registrations ?calls = config_filters ct ?c \<and>
            (\<forall>cfg. cfg_config (config ?c) = Some cfg \<longrightarrow> Configure (UserConfig cfg) \<in> set ?calls) \<and>
            (\<forall>cb\<in>set (callbacks ?c). Callback cb (player_ref (ct (video ?c))) \<in> set ?calls) \<and>
            PlayerDispatch (DOMEvent ''shaka-instance'' (InstanceDetail (player_ref (ct (video ?c)))) None)
              \<in> set ?calls))"
  proof cases
    case quiet
    then have "sorted (lifecycle_stages ?calls)" by (rule sorted_zeros)
    moreover from quiet have "1 \<notin> set (lifecycle_stages ?calls)" "8 \<notin> set (lifecycle_stages ?calls)"
      by auto
    ultimately show ?thesis by blast
  next
    case run
    let ?mid = "snd (provider_onCtor env ct p)"
    have st: "lifecycle_stages ?calls = lifecycle_stages pre @ setup_stages ct ?c"
      by (simp add: run(1) lifecycle_stages_append run(3) lifecycle_stages_onCtor)
    have srt: "sorted (lifecycle_stages ?calls)"
      unfolding st using run(2) sorted_zeros[OF run(2)] sorted_setup_stages[of ct ?c]
        setup_stages_positive[of _ ct ?c]
      by (auto simp: sorted_append)
    from run(2) have "6 \<notin> set (lifecycle_stages pre)" by auto
    then have fpre: "filter_registrations pre = []" by (rule no_filter_without_stage)
    from run(3) have "6 \<notin> set (lifecycle_stages post)" by simp
    then have fpost: "filter_registrations post = []" by (rule no_filter_without_stage)
    have flt: "filter_registrations ?calls = config_filters ct ?c"
      by (simp add: run(1) filter_registrations_append fpre fpost filter_registrations_onCtor)
    have sub: "set (snd (controller_setup env ct ?c)) \<subseteq> set ?calls"
      using onCtor_contains_setup[of env ct p] by (auto simp: run(1))
    have cfg: "\<forall>cfg. cfg_config (config ?c) = Some cfg \<longrightarrow> Configure (UserConfig cfg) \<in> set ?calls"
    proof (intro allI impI)
      fix cfg assume "cfg_config (config ?c) = Some cfg"
      then have "Configure (UserConfig cfg) \<in> set (snd (controller_setup env ct ?c))"
        by (simp add: controller_setup_calls)
      with sub show "Configure (UserConfig cfg) \<in> set ?calls" by blast
    qed
    have cbs: "\<forall>cb\<in>set (callbacks ?c). Callback cb (player_ref (ct (video ?c))) \<in> set ?calls"
    proof
      fix cb assume "cb \<in> set (callbacks ?c)"
      then have "Callback cb (player_ref (ct (video ?c))) \<in> set (snd (controller_setup env ct ?c))"
        by (simp add: callbacks_in_setup)
      with sub show "Callback cb (player_ref (ct (video ?c))) \<in> set ?calls" by blast
    qed
    have "PlayerDispatch (DOMEvent ''shaka-instance'' (InstanceDetail (player_ref (ct (video ?c)))) None)
            \<in> set (snd (controller_setup env ct ?c))"
      by (simp add: controller_setup_calls)
    with sub have ev: "PlayerDispatch (DOMEvent ''shaka-instance'' (InstanceDetail (player_ref (ct (video ?c)))) None)
            \<in> set ?calls" by blast
    from run(2) run(4) st flt cfg cbs ev srt show ?thesis by auto
  qed
  then show ?thesis
    unfolding Let_def setup_stages_def config_filters_def by auto
qed

text \<open>
  On the example provider with one registered callback every stage occurs: one library
  load, one construction, twelve early listeners, one callback, the instance event, one
  configuration, two filter registrations, four track listeners and one source load.
\<close>

theorem lifecycle_order_witness:
  "lifecycle_stages (snd (provider_setup ex_env ex_provider_callback))
     = [0, 1, 2, 2, 2, 2, 2, 2, 2, 2, 2, 2, 2, 2, 3, 4, 5, 6, 6, 7, 7, 7, 7, 8] \<and>
   sorted (lifecycle_stages (snd (provider_setup ex_env ex_provider_callback))) \<and>
   cfg_config (config (controller ex_provider_callback)) = Some 11 \<and>
   Configure (UserConfig 11) \<in> set (snd (provider_setup ex_env ex_provider_callback)) \<and>
   Callback 7 1 \<in> set (snd (provider_setup ex_env ex_provider_callback))"
proof -
  let ?calls = "snd (provider_setup ex_env ex_provider_callback)"
  have v: "lifecycle_stages ?calls
     = [0, 1, 2, 2, 2, 2, 2, 2, 2, 2, 2, 2, 2, 2, 3, 4, 5, 6, 6, 7, 7, 7, 7, 8]"
    by code_simp
  then have h: "1 \<in> set (lifecycle_stages ?calls) \<or> 8 \<in> set (lifecycle_stages ?calls)"
    by simp
  have g: "cfg_config (config (controller ex_provider_callback)) = Some 11"
    by (simp add: ex_provider_callback_def ex_provider_def ex_fresh_def)
  have k: "Callback 7 1 \<in> set ?calls" by code_simp
  note T = lifecycle_order[of ex_env ex_provider_callback, unfolded Let_def]
  from T have s: "sorted (lifecycle_stages ?calls)" by (rule conjunct1)
  from mp[OF conjunct2[OF T] h]
  have "\<forall>cfg. cfg_config (config (controller ex_provider_callback)) = Some cfg
          \<longrightarrow> Configure (UserConfig cfg) \<in> set ?calls"
    by (elim exE conjE)
  with g have c: "Configure (UserConfig 11) \<in> set ?calls" by blast
  from v s g k c show ?thesis by (intro conjI)
qed

text \<open>
  The order with configuration before every listener attachment does not hold: on the
  example provider the first listener is attached by the seventh call and \<open>configure\<close> is
  the twentieth call, after twelve listeners.
\<close>

theorem configure_before_listeners_counterexample:
  "snd (provider_setup ex_env ex_provider) ! 6 = AddEventListener ''buffering'' H_dispatchShakaEvent \<and>
   snd (provider_setup ex_env ex_provider) ! 17 = AddEventListener ''error'' H_onError \<and>
   snd (provider_setup ex_env ex_provider) ! 19 = Configure (UserConfig 11) \<and>
   \<not> sorted (stated_stages (snd (provider_setup ex_env ex_provider)))"
  by code_simp

section \<open>Scheduling\<close>

















section \<open>Network filters\<close>










section \<open>Instance callbacks\<close>

text \<open>
  C10. \<open>onInstance\<close> on the provider calls the callback at once exactly when an instance
  exists, and in every case puts it into the set of callbacks, so that a following setup
  calls it with the new instance. After the returned dispose function has run, the
  callback is out of the set, no following setup calls it, and the other callbacks are
  still registered.
\<close>

theorem onInstance_registers_and_disposes:
  "(let (p1, calls) = provider_onInstance cb p;
        p2 = provider_onInstance_dispose cb p1
    in calls = (case shaka_instance (controller p) of
                  None \<Rightarrow> []
                | Some inst \<Rightarrow> [Callback cb (player_ref inst)]) \<and>
       cb \<in> set (callbacks (controller p1)) \<and>
       Callback cb (player_ref (ct (video (controller p1))))
         \<in> set (snd (controller_setup env ct (controller p1))) \<and>
       cb \<notin> set (callbacks (controller p2)) \<and>
       (\<forall>r. Callback cb r \<notin> set (snd (controller_setup env ct (controller p2)))) \<and>
       set (callbacks (controller p2)) = set (callbacks (controller p)) - {cb})"
proof -
  let ?p1 = "fst (provider_onInstance cb p)"
  let ?p2 = "provider_onInstance_dispose cb ?p1"
  have c1: "callbacks (controller ?p1) = Set_add cb (callbacks (controller p))"
    by (simp add: provider_onInstance_def onInstance_def Let_def)
  have c2: "callbacks (controller ?p2) = Set_delete cb (Set_add cb (callbacks (controller p)))"
    by (simp add: provider_onInstance_dispose_def onInstance_dispose_def c1)
  have m1: "cb \<in> set (callbacks (controller ?p1))"
    by (simp add: c1 Set_add_def)
  have m2: "cb \<notin> set (callbacks (controller ?p2))"
    by (simp add: c2 Set_delete_def)
  have s2: "set (callbacks (controller ?p2)) = set (callbacks (controller p)) - {cb}"
    by (auto simp: c2 Set_delete_def Set_add_def)
  have a: "snd (provider_onInstance cb p)
           = (case shaka_instance (controller p) of
                None \<Rightarrow> []
              | Some inst \<Rightarrow> [Callback cb (player_ref inst)])"
    by (simp add: provider_onInstance_def Let_def)
  from a m1 m2 s2 show ?thesis
    by (simp add: case_prod_unfold Let_def callbacks_in_setup)
qed

theorem onInstance_registers_and_disposes_witness:
  "(let (p1, calls) = provider_onInstance 3 ex_provider;
        p2 = provider_onInstance_dispose 3 p1
    in calls = [] \<and>
       callbacks (controller p1) = [3] \<and>
       Callback 3 1 \<in> set (snd (controller_setup ex_env ex_ctor (controller p1))) \<and>
       callbacks (controller p2) = [] \<and>
       (\<forall>r. Callback 3 r \<notin> set (snd (controller_setup ex_env ex_ctor (controller p2)))))"
proof -
  have n: "shaka_instance (controller ex_provider) = None"
    by (simp add: ex_provider_def ex_fresh_def)
  have r: "player_ref (ex_ctor (video (controller (fst (provider_onInstance 3 ex_provider))))) = 1"
    by (simp add: ex_ctor_def ex_player_def)
  have c1: "callbacks (controller (fst (provider_onInstance 3 ex_provider))) = [3]"
    by (simp add: provider_onInstance_def onInstance_def Let_def Set_add_def ex_provider_def ex_fresh_def)
  have c2: "callbacks (controller (provider_onInstance_dispose 3 (fst (provider_onInstance 3 ex_provider)))) = []"
    by (simp add: provider_onInstance_dispose_def onInstance_dispose_def Set_delete_def c1)
  from n r c1 c2 onInstance_registers_and_disposes[of 3 ex_provider ex_ctor ex_env]
  show ?thesis by (simp add: case_prod_unfold Let_def)
qed

end
